theory Spec2Isabelle
  imports Complex_Main
begin

section \<open>JavaScript values and the YAML node tree\<close>

text \<open>
  A JavaScript number is an IEEE double. Every finite double is a rational, so a number is
  either a finite rational or one of the three special values. The code below only asks
  whether a number is an integer, compares it with zero and uses it as an array index.
\<close>

datatype jsnum = Fin rat | NaN | PosInfinity | NegInfinity

text \<open>
  The fields every node object carries (class \<open>NodeBase\<close>). \<open>nid\<close> is the identity of
  the object (its address): the source compares nodes with \<open>===\<close> and keys the anchor table
  of the conversion to native values by node object. A field that is \<open>undefined\<close> or
  \<open>null\<close> in the source is \<open>None\<close>.
\<close>

record NodeBase =
  nid :: nat
  anchor :: "string option"
  tag :: "string option"
  comment :: "string option"
  commentBefore :: "string option"
  spaceBefore :: bool
  range :: "(int \<times> int) option"

text \<open>
  Items of a collection are typed \<open>unknown\<close> in the source: they may be nodes, pairs or
  plain JavaScript values. One datatype holds them all. \<open>YAMLMap\<close> and \<open>YAMLSeq\<close> carry
  their \<open>flow\<close> flag and their \<open>items\<close>; \<open>Scalar\<close> its \<open>value\<close>; \<open>Alias\<close> its
  \<open>source\<close> label; \<open>Pair\<close> its \<open>key\<close> and \<open>value\<close>.
\<close>

datatype jsval =
    JUndefined
  | JNull
  | JBool bool
  | JNum jsnum
  | JStr string
  | JObject "(string \<times> jsval) list"
  | Scalar NodeBase jsval
  | Alias NodeBase string
  | YAMLMap NodeBase bool "jsval list"
  | YAMLSeq NodeBase bool "jsval list"
  | Pair NodeBase jsval jsval

fun isScalar :: "jsval \<Rightarrow> bool" where
  "isScalar (Scalar b v) = True"
| "isScalar _ = False"

fun isAlias :: "jsval \<Rightarrow> bool" where
  "isAlias (Alias b s) = True"
| "isAlias _ = False"

fun isCollection :: "jsval \<Rightarrow> bool" where
  "isCollection (YAMLMap b f xs) = True"
| "isCollection (YAMLSeq b f xs) = True"
| "isCollection _ = False"

fun isPair :: "jsval \<Rightarrow> bool" where
  "isPair (Pair b k v) = True"
| "isPair _ = False"

definition isNode :: "jsval \<Rightarrow> bool" where
  "isNode x = (isScalar x \<or> isAlias x \<or> isCollection x)"

text \<open>The object identity of a node or pair; plain values have none.\<close>

fun node_id :: "jsval \<Rightarrow> nat option" where
  "node_id (Scalar b v) = Some (nid b)"
| "node_id (Alias b s) = Some (nid b)"
| "node_id (YAMLMap b f xs) = Some (nid b)"
| "node_id (YAMLSeq b f xs) = Some (nid b)"
| "node_id (Pair b k v) = Some (nid b)"
| "node_id _ = None"

text \<open>
  \<open>node.anchor\<close>. The class \<open>Alias\<close> declares \<open>anchor?: never\<close>: an alias has no anchor.
\<close>

fun anchor_of :: "jsval \<Rightarrow> string option" where
  "anchor_of (Scalar b v) = anchor b"
| "anchor_of (YAMLMap b f xs) = anchor b"
| "anchor_of (YAMLSeq b f xs) = anchor b"
| "anchor_of _ = None"

text \<open>The base record of a node or pair: the object on which \<open>item.comment\<close> and the
  like are read.\<close>

fun base_of :: "jsval \<Rightarrow> NodeBase option" where
  "base_of (Scalar b v) = Some b"
| "base_of (Alias b s) = Some b"
| "base_of (YAMLMap b f xs) = Some b"
| "base_of (YAMLSeq b f xs) = Some b"
| "base_of (Pair b k v) = Some b"
| "base_of _ = None"

text \<open>\<open>node.items\<close> of a collection.\<close>

fun items_of :: "jsval \<Rightarrow> jsval list" where
  "items_of (YAMLMap b f xs) = xs"
| "items_of (YAMLSeq b f xs) = xs"
| "items_of _ = []"

text \<open>A freshly constructed node object: every optional field is unset.\<close>

definition NodeBase_new :: "nat \<Rightarrow> NodeBase" where
  "NodeBase_new i = \<lparr>nid = i, anchor = None, tag = None, comment = None,
     commentBefore = None, spaceBefore = False, range = None\<rparr>"

text \<open>JavaScript truthiness, of a value and of an optional string field.\<close>

fun truthy :: "jsval \<Rightarrow> bool" where
  "truthy JUndefined = False"
| "truthy JNull = False"
| "truthy (JBool b) = b"
| "truthy (JNum (Fin q)) = (q \<noteq> 0)"
| "truthy (JNum NaN) = False"
| "truthy (JNum PosInfinity) = True"
| "truthy (JNum NegInfinity) = True"
| "truthy (JStr s) = (s \<noteq> [])"
| "truthy _ = True"

fun truthy_str :: "string option \<Rightarrow> bool" where
  "truthy_str None = False"
| "truthy_str (Some s) = (s \<noteq> [])"

text \<open>The assignment \<open>node.comment = c\<close> on a node or pair object.\<close>

fun set_comment :: "string \<Rightarrow> jsval \<Rightarrow> jsval" where
  "set_comment c (Scalar b v) = Scalar (b\<lparr>comment := Some c\<rparr>) v"
| "set_comment c (Alias b s) = Alias (b\<lparr>comment := Some c\<rparr>) s"
| "set_comment c (YAMLMap b f xs) = YAMLMap (b\<lparr>comment := Some c\<rparr>) f xs"
| "set_comment c (YAMLSeq b f xs) = YAMLSeq (b\<lparr>comment := Some c\<rparr>) f xs"
| "set_comment c (Pair b k v) = Pair (b\<lparr>comment := Some c\<rparr>) k v"
| "set_comment c x = x"

datatype error = ReferenceError string | Error string | TypeError string

record YAMLError =
  offset :: int
  code :: string
  message :: string

record Document =
  contents :: jsval
  errors :: "YAMLError list"
  warnings :: "YAMLError list"
  doc_range :: "int \<times> int"
  logLevel :: string

section \<open>Alias.ts\<close>

text \<open>
  Modelled from the spec: the traversal \<open>visit\<close> (src/visit.ts) is not among the sources.
  The spec has an alias "traverse the document in source order", "walking the containing
  document for the most recent preceding node". \<open>visit_nodes x\<close> is the sequence of nodes
  on which the \<open>Node\<close> callback of a visitor is invoked when nothing stops the walk: a
  depth-first walk that calls the visitor on a node before its items, goes through the
  items of a collection in order and through the key of a pair before its value. The
  callback is invoked on scalars, aliases, maps and sequences, not on pairs, and the walk
  does not enter plain values.
\<close>

fun visit_nodes :: "jsval \<Rightarrow> jsval list" where
  "visit_nodes (Scalar b v) = [Scalar b v]"
| "visit_nodes (Alias b s) = [Alias b s]"
| "visit_nodes (YAMLMap b f xs) = YAMLMap b f xs # concat (map visit_nodes xs)"
| "visit_nodes (YAMLSeq b f xs) = YAMLSeq b f xs # concat (map visit_nodes xs)"
| "visit_nodes (Pair b k v) = visit_nodes k @ visit_nodes v"
| "visit_nodes _ = []"

text \<open>
  The visitor of \<open>Alias.resolve\<close>, run over the nodes in visiting order with the variable
  \<open>found\<close>: on the alias itself (\<open>node === this\<close>) it returns \<open>visit.BREAK\<close>, which ends
  the walk; on a node whose anchor is the alias's source it stores the node.
\<close>

fun resolve_visitor :: "NodeBase \<Rightarrow> string \<Rightarrow> jsval list \<Rightarrow> jsval option \<Rightarrow> jsval option" where
  "resolve_visitor this src [] found = found"
| "resolve_visitor this src (node # rest) found =
     (if node_id node = Some (nid this) then found
      else resolve_visitor this src rest
             (if anchor_of node = Some src then Some node else found))"

definition Alias_resolve :: "NodeBase \<Rightarrow> string \<Rightarrow> Document \<Rightarrow> jsval option" where
  "Alias_resolve this src doc = resolve_visitor this src (visit_nodes (contents doc)) None"

text \<open>The entry of the anchor table of \<open>ToJSContext\<close>, a \<open>Map\<close> keyed by node object.\<close>

record AnchorData =
  aliasCount :: int
  count :: int
  res :: jsval

type_synonym anchor_table = "nat \<Rightarrow> AnchorData option"

record ToJSContext =
  anchors :: anchor_table
  doc :: Document
  maxAliasCount :: int

definition anchors_get :: "anchor_table \<Rightarrow> jsval \<Rightarrow> AnchorData option" where
  "anchors_get tbl node = (case node_id node of None \<Rightarrow> None | Some i \<Rightarrow> tbl i)"

definition anchors_set :: "anchor_table \<Rightarrow> jsval \<Rightarrow> AnchorData \<Rightarrow> anchor_table" where
  "anchors_set tbl node d = (case node_id node of None \<Rightarrow> tbl | Some i \<Rightarrow> tbl(i \<mapsto> d))"

fun getAliasCount :: "Document \<Rightarrow> jsval \<Rightarrow> anchor_table \<Rightarrow> int" where
  "getAliasCount d (Alias b src) tbl =
     (case Alias_resolve b src d of
        None \<Rightarrow> 0
      | Some source \<Rightarrow>
          (case anchors_get tbl source of
             None \<Rightarrow> 0
           | Some a \<Rightarrow> count a * aliasCount a))"
| "getAliasCount d (YAMLMap b f xs) tbl =
     fold (\<lambda>item cnt. let c = getAliasCount d item tbl in if c > cnt then c else cnt) xs 0"
| "getAliasCount d (YAMLSeq b f xs) tbl =
     fold (\<lambda>item cnt. let c = getAliasCount d item tbl in if c > cnt then c else cnt) xs 0"
| "getAliasCount d (Pair b k v) tbl = max (getAliasCount d k tbl) (getAliasCount d v tbl)"
| "getAliasCount d _ tbl = 1"

definition unresolved_msg :: "string \<Rightarrow> string" where
  "unresolved_msg src = ''Unresolved alias (the anchor must be set before the alias): '' @ src"

definition not_resolved_msg :: string where
  "not_resolved_msg = ''This should not happen: Alias anchor was not resolved?''"

definition excessive_msg :: string where
  "excessive_msg = ''Excessive alias count indicates a resource exhaustion attack''"

text \<open>
  \<open>Alias.toJSON(_arg, ctx)\<close>. The method updates the entry of the anchor table in place
  before it may throw, so the result is the thrown error or the returned value, together
  with the table as the call leaves it. Without a context there is no table, and the
  second result is the empty one.
\<close>

definition Alias_toJSON ::
  "NodeBase \<Rightarrow> string \<Rightarrow> ToJSContext option \<Rightarrow> (error + jsval) \<times> anchor_table" where
  "Alias_toJSON this src ctx =
     (case ctx of
        None \<Rightarrow> (Inr (JObject [(''source'', JStr src)]), Map.empty)
      | Some c \<Rightarrow>
          (case Alias_resolve this src (doc c) of
             None \<Rightarrow> (Inl (ReferenceError (unresolved_msg src)), anchors c)
           | Some source \<Rightarrow>
               (case anchors_get (anchors c) source of
                  None \<Rightarrow> (Inl (ReferenceError not_resolved_msg), anchors c)
                | Some data \<Rightarrow>
                    if res data = JUndefined
                    then (Inl (ReferenceError not_resolved_msg), anchors c)
                    else if maxAliasCount c \<ge> 0 then
                      (let data1 = data\<lparr>count := count data + 1\<rparr>;
                           tbl1 = anchors_set (anchors c) source data1;
                           data2 = (if aliasCount data1 = 0
                                    then data1\<lparr>aliasCount := getAliasCount (doc c) source tbl1\<rparr>
                                    else data1);
                           tbl2 = anchors_set tbl1 source data2
                       in if count data2 * aliasCount data2 > maxAliasCount c
                          then (Inl (ReferenceError excessive_msg), tbl2)
                          else (Inr (res data2), tbl2))
                    else (Inr (res data), anchors c))))"

text \<open>
  The part of \<open>StringifyContext\<close> the code reads. \<open>anchors\<close> is the set of anchor names the
  stringifier has emitted so far; \<open>verifyAliasOrder\<close> is \<open>ctx.options.verifyAliasOrder\<close>.
\<close>

record StringifyContext =
  ctx_anchors :: "string set"
  implicitKey :: bool
  indent :: string
  indentStep :: string
  inFlow :: bool
  ctx_type :: "string option"
  verifyAliasOrder :: bool

text \<open>
  \<open>Alias.toString(ctx)\<close>. \<open>anchorIsValid\<close> (src/doc/anchors) is not among the sources; it
  is a parameter that gives the error it throws on a label, or \<open>None\<close> when it returns.
\<close>

definition Alias_toString ::
  "(string \<Rightarrow> error option) \<Rightarrow> string \<Rightarrow> StringifyContext option \<Rightarrow> error + string" where
  "Alias_toString anchorIsValid src ctx =
     (let s = ''*'' @ src in
      case ctx of
        None \<Rightarrow> Inr s
      | Some c \<Rightarrow>
          (case anchorIsValid src of
             Some e \<Rightarrow> Inl e
           | None \<Rightarrow>
               if verifyAliasOrder c \<and> src \<notin> ctx_anchors c
               then Inl (Error (unresolved_msg src))
               else if implicitKey c then Inr (s @ '' '') else Inr s))"

section \<open>YAMLSeq.ts\<close>

text \<open>
  \<open>asItemIndex(key)\<close>. \<open>Number(idx)\<close>, the conversion of a string to a number, is a
  primitive of the language and a parameter here. The result is the index, or \<open>None\<close>
  for \<open>null\<close>. A number is an index when \<open>Number.isInteger\<close> holds of it and it is not
  negative.
\<close>

definition asItemIndex :: "(string \<Rightarrow> jsnum) \<Rightarrow> jsval \<Rightarrow> nat option" where
  "asItemIndex Number key =
     (let idx = (case key of Scalar b v \<Rightarrow> v | _ \<Rightarrow> key);
          idx = (case idx of JStr s \<Rightarrow> if s \<noteq> [] then JNum (Number s) else idx | _ \<Rightarrow> idx)
      in case idx of
           JNum (Fin q) \<Rightarrow> if q = of_int \<lfloor>q\<rfloor> \<and> q \<ge> 0 then Some (nat \<lfloor>q\<rfloor>) else None
         | _ \<Rightarrow> None)"

text \<open>
  \<open>this.items[idx]\<close>: reading past the end of an array gives \<open>undefined\<close>.
\<close>

definition array_get :: "jsval list \<Rightarrow> nat \<Rightarrow> jsval" where
  "array_get xs i = (if i < length xs then xs ! i else JUndefined)"

text \<open>
  \<open>this.items[idx] = value\<close>: writing past the end extends the array, and the elements in
  between are holes, which read as \<open>undefined\<close>. (An index of \<open>2^32 - 1\<close> or more is
  not an array index in JavaScript; the model covers the indices below.)
\<close>

definition array_set :: "jsval list \<Rightarrow> nat \<Rightarrow> jsval \<Rightarrow> jsval list" where
  "array_set xs i v =
     (if i < length xs then xs[i := v]
      else xs @ replicate (i - length xs) JUndefined @ [v])"

fun scalar_value :: "jsval \<Rightarrow> jsval" where
  "scalar_value (Scalar b v) = v"
| "scalar_value _ = JUndefined"

text \<open>
  The methods of \<open>YAMLSeq\<close> on \<open>this.items\<close>. \<open>delete\<close> and \<open>set\<close> change the array:
  they return it with their result. \<open>splice(idx, 1)\<close> removes the element at \<open>idx\<close> when
  there is one and returns the removed elements.
\<close>

definition YAMLSeq_delete :: "(string \<Rightarrow> jsnum) \<Rightarrow> jsval list \<Rightarrow> jsval \<Rightarrow> bool \<times> jsval list" where
  "YAMLSeq_delete Number items key =
     (case asItemIndex Number key of
        None \<Rightarrow> (False, items)
      | Some idx \<Rightarrow>
          (let del = take 1 (drop idx items)
           in (length del > 0, take idx items @ drop (idx + 1) items)))"

definition YAMLSeq_get :: "(string \<Rightarrow> jsnum) \<Rightarrow> jsval list \<Rightarrow> jsval \<Rightarrow> bool \<Rightarrow> jsval" where
  "YAMLSeq_get Number items key keepScalar =
     (case asItemIndex Number key of
        None \<Rightarrow> JUndefined
      | Some idx \<Rightarrow>
          (let it = array_get items idx
           in if \<not> keepScalar \<and> isScalar it then scalar_value it else it))"

definition YAMLSeq_has :: "(string \<Rightarrow> jsnum) \<Rightarrow> jsval list \<Rightarrow> jsval \<Rightarrow> bool" where
  "YAMLSeq_has Number items key =
     (case asItemIndex Number key of
        None \<Rightarrow> False
      | Some idx \<Rightarrow> idx < length items)"

text \<open>
  \<open>set\<close>. \<open>isScalarValue\<close> (Scalar.js) is not among the sources and is a parameter, and
  so is \<open>String\<close>, the conversion of the key to text in the error message.
\<close>

definition YAMLSeq_set ::
  "(string \<Rightarrow> jsnum) \<Rightarrow> (jsval \<Rightarrow> string) \<Rightarrow> (jsval \<Rightarrow> bool) \<Rightarrow>
   jsval list \<Rightarrow> jsval \<Rightarrow> jsval \<Rightarrow> error + jsval list" where
  "YAMLSeq_set Number String isScalarValue items key v =
     (case asItemIndex Number key of
        None \<Rightarrow> Inl (Error (''Expected a valid index, not '' @ String key @ ''.''))
      | Some idx \<Rightarrow>
          (let prev = array_get items idx
           in case prev of
                Scalar b old \<Rightarrow>
                  if isScalarValue v then Inr (items[idx := Scalar b v])
                  else Inr (array_set items idx v)
              | _ \<Rightarrow> Inr (array_set items idx v)))"

text \<open>
  What it is for a key to represent the non-negative integer \<open>i\<close>: the key, taken out of
  a wrapping scalar, is the number \<open>i\<close> or a non-empty string that converts to it.
\<close>

definition represents_index :: "(string \<Rightarrow> jsnum) \<Rightarrow> jsval \<Rightarrow> nat \<Rightarrow> bool" where
  "represents_index Number key i =
     (case (case key of Scalar b v \<Rightarrow> v | _ \<Rightarrow> key) of
        JNum q \<Rightarrow> q = Fin (of_nat i)
      | JStr s \<Rightarrow> s \<noteq> [] \<and> Number s = Fin (of_nat i)
      | _ \<Rightarrow> False)"

section \<open>stringifyCollection.ts\<close>

text \<open>
  Strings are lists of \<open>char\<close>. The line terminators of a JavaScript regular expression
  that such a string can hold are line feed and carriage return.
\<close>

definition is_line_terminator :: "char \<Rightarrow> bool" where
  "is_line_terminator c = (c = CHR 0x0A \<or> c = CHR 0x0D)"

text \<open>
  \<open>s.match(/^.*$/gm)\<close>: the lines of \<open>s\<close>, one for every stretch between line
  terminators, the empty ones too.
\<close>

fun match_lines :: "string \<Rightarrow> string list" where
  "match_lines [] = [[]]"
| "match_lines (c # cs) =
     (if is_line_terminator c then [] # match_lines cs
      else (case match_lines cs of
              [] \<Rightarrow> [[c]]
            | l # ls \<Rightarrow> (c # l) # ls))"

text \<open>\<open>s.replace(/^/gm, p)\<close>: \<open>p\<close> put at the start of every line of \<open>s\<close>.\<close>

definition replace_line_starts :: "string \<Rightarrow> string \<Rightarrow> string" where
  "replace_line_starts s p = p @ concat (map (\<lambda>c. if is_line_terminator c then c # p else [c]) s)"

text \<open>\<open>strings.join(sep)\<close>\<close>

fun join :: "string \<Rightarrow> string list \<Rightarrow> string" where
  "join sep [] = []"
| "join sep [s] = s"
| "join sep (s # t # ss) = s @ sep @ join sep (t # ss)"

text \<open>
  The property reads \<open>x.key\<close>, \<open>x.value\<close>, \<open>x.comment\<close> and \<open>x.commentBefore\<close> on a value
  cast to \<open>any\<close>: a node or pair gives its field, a plain object its property of that name,
  and anything else \<open>undefined\<close>.
\<close>

definition opt_str :: "string option \<Rightarrow> jsval" where
  "opt_str x = (case x of None \<Rightarrow> JUndefined | Some s \<Rightarrow> JStr s)"

fun object_prop :: "(string \<times> jsval) list \<Rightarrow> string \<Rightarrow> jsval" where
  "object_prop ps name = (case map_of ps name of None \<Rightarrow> JUndefined | Some v \<Rightarrow> v)"

fun prop_key :: "jsval \<Rightarrow> jsval" where
  "prop_key (Pair b k v) = k"
| "prop_key (JObject ps) = object_prop ps ''key''"
| "prop_key _ = JUndefined"

fun prop_value :: "jsval \<Rightarrow> jsval" where
  "prop_value (Pair b k v) = v"
| "prop_value (Scalar b v) = v"
| "prop_value (JObject ps) = object_prop ps ''value''"
| "prop_value _ = JUndefined"

fun prop_comment :: "jsval \<Rightarrow> jsval" where
  "prop_comment (JObject ps) = object_prop ps ''comment''"
| "prop_comment x = (case base_of x of None \<Rightarrow> JUndefined | Some b \<Rightarrow> opt_str (comment b))"

fun prop_commentBefore :: "jsval \<Rightarrow> jsval" where
  "prop_commentBefore (JObject ps) = object_prop ps ''commentBefore''"
| "prop_commentBefore x = (case base_of x of None \<Rightarrow> JUndefined | Some b \<Rightarrow> opt_str (commentBefore b))"

record StringifyNode =
  node_comment :: bool
  str :: string

datatype flowChars = Braces | Brackets

fun flow_start :: "flowChars \<Rightarrow> string" where
  "flow_start Braces = ''{''"
| "flow_start Brackets = ''[''"

fun flow_end :: "flowChars \<Rightarrow> string" where
  "flow_end Braces = ''}''"
| "flow_end Brackets = '']''"

text \<open>
  The options of \<open>stringifyCollection\<close>. Whether each of the two optional callbacks is
  given is a flag; the result says whether it was called.
\<close>

record StringifyCollectionOptions =
  blockItem :: "StringifyNode \<Rightarrow> string"
  flowChars :: flowChars
  itemIndent :: string
  onChompKeep :: bool
  onComment :: bool

text \<open>
  What the function takes from modules that are not among the sources: \<open>stringify\<close>
  (stringify.js), which renders one item and may throw, and tells by its second and third
  result whether it called its \<open>onComment\<close> and its \<open>onChompKeep\<close> callback;
  \<open>addComment\<close> (addComment.js); and the constant
  \<open>Collection.maxFlowStringSingleLineLength\<close>.
\<close>

record StringifyEnv =
  stringify :: "jsval \<Rightarrow> StringifyContext \<Rightarrow> error + (string \<times> bool \<times> bool)"
  addComment :: "string \<Rightarrow> string \<Rightarrow> string option \<Rightarrow> string"
  maxFlowStringSingleLineLength :: nat

text \<open>The variables the callback of \<open>items.reduce\<close> works on.\<close>

record ReduceState =
  nodes :: "StringifyNode list"
  chompKeep :: bool
  hasItemWithNewLine :: bool

text \<open>
  The test that sets \<open>hasItemWithNewLine\<close> for an item that is a node or a pair, apart
  from \<open>inFlow\<close>: a blank line or a comment before the item, a comment after it, or a
  comment on the key or the value of a pair.
\<close>

definition item_breaks_line :: "bool \<Rightarrow> NodeBase \<Rightarrow> jsval \<Rightarrow> bool" where
  "item_breaks_line ck b item =
     ((\<not> ck \<and> spaceBefore b) \<or>
      truthy_str (commentBefore b) \<or>
      truthy_str (comment b) \<or>
      (truthy (prop_key item) \<and>
         (truthy (prop_commentBefore (prop_key item)) \<or> truthy (prop_comment (prop_key item)))) \<or>
      (truthy (prop_value item) \<and>
         (truthy (prop_commentBefore (prop_value item)) \<or> truthy (prop_comment (prop_value item)))))"

text \<open>
  One call of the callback of \<open>items.reduce\<close>, on the item at index \<open>i\<close> of \<open>n\<close> items.
  \<open>c\<close> is the context handed to \<open>stringify\<close>, \<open>inFl\<close> the variable \<open>inFlow\<close> and \<open>ind\<close>
  the variable \<open>itemIndent\<close>.
\<close>

definition reduce_item ::
  "StringifyEnv \<Rightarrow> StringifyContext \<Rightarrow> bool \<Rightarrow> string \<Rightarrow> nat \<Rightarrow> nat \<Rightarrow> jsval \<Rightarrow>
   ReduceState \<Rightarrow> error + ReduceState" where
  "reduce_item env c inFl ind n i item st =
     (let own = (if isNode item \<or> isPair item then base_of item else None);
          before =
            (case own of
               None \<Rightarrow> []
             | Some b \<Rightarrow>
                 (if \<not> chompKeep st \<and> spaceBefore b
                  then [\<lparr>node_comment = True, str = []\<rparr>] else []) @
                 (case commentBefore b of
                    None \<Rightarrow> []
                  | Some cb \<Rightarrow>
                      if cb \<noteq> []
                      then map (\<lambda>line. \<lparr>node_comment = True, str = ''#'' @ line\<rparr>) (match_lines cb)
                      else []));
          cmt = (case own of
                   None \<Rightarrow> None
                 | Some b \<Rightarrow> if truthy_str (comment b) then comment b else None);
          has1 = (case own of
                    None \<Rightarrow> hasItemWithNewLine st
                  | Some b \<Rightarrow>
                      if inFl \<and> item_breaks_line (chompKeep st) b item then True
                      else hasItemWithNewLine st)
      in case stringify env item c of
           Inl e \<Rightarrow> Inl e
         | Inr (s, calledOnComment, calledOnChompKeep) \<Rightarrow>
             (let cmt = (if calledOnComment then None else cmt);
                  ck = calledOnChompKeep;
                  has2 = (if inFl \<and> \<not> has1 \<and> CHR 0x0A \<in> set s then True else has1);
                  s = (if inFl \<and> int i < int n - 1 then s @ '','' else s);
                  s = addComment env s ind cmt;
                  ck = (if ck \<and> (truthy_str cmt \<or> inFl) then False else ck)
              in Inr \<lparr>nodes = nodes st @ before @ [\<lparr>node_comment = False, str = s\<rparr>],
                      chompKeep = ck, hasItemWithNewLine = has2\<rparr>))"

text \<open>\<open>items.reduce(callback, [])\<close> from index \<open>i\<close> on; an exception ends it.\<close>

fun reduce_items ::
  "StringifyEnv \<Rightarrow> StringifyContext \<Rightarrow> bool \<Rightarrow> string \<Rightarrow> nat \<Rightarrow> nat \<Rightarrow> jsval list \<Rightarrow>
   ReduceState \<Rightarrow> error + ReduceState" where
  "reduce_items env c inFl ind n i [] st = Inr st"
| "reduce_items env c inFl ind n i (item # rest) st =
     (case reduce_item env c inFl ind n i item st of
        Inl e \<Rightarrow> Inl e
      | Inr st' \<Rightarrow> reduce_items env c inFl ind n (Suc i) rest st')"

text \<open>The two layouts of a flow collection and the layout of a block collection.\<close>

definition flow_lines :: "string \<Rightarrow> string \<Rightarrow> string \<Rightarrow> string \<Rightarrow> string list \<Rightarrow> string" where
  "flow_lines start end ind step strings =
     start @
     concat (map (\<lambda>s. if s \<noteq> [] then [CHR 0x0A] @ step @ ind @ s else [CHR 0x0A]) strings) @
     [CHR 0x0A] @ ind @ end"

definition flow_single_line :: "string \<Rightarrow> string \<Rightarrow> string list \<Rightarrow> string" where
  "flow_single_line start end strings = start @ '' '' @ join '' '' strings @ '' '' @ end"

definition flow_length :: "string list \<Rightarrow> nat" where
  "flow_length strings = fold (\<lambda>s sum. sum + length s + 2) strings 2"

definition block_lines :: "string \<Rightarrow> string list \<Rightarrow> string" where
  "block_lines ind strings =
     (case strings of
        [] \<Rightarrow> []
      | s0 # rest \<Rightarrow>
          s0 @ concat (map (\<lambda>s. if s \<noteq> [] then [CHR 0x0A] @ ind @ s else [CHR 0x0A]) rest))"

text \<open>
  \<open>stringifyCollection({ comment, flow, items }, ctx, options)\<close>. The result is the
  string with the flags that say whether \<open>onComment\<close> and \<open>onChompKeep\<close> were called.
\<close>

definition stringifyCollection ::
  "StringifyEnv \<Rightarrow> string option \<Rightarrow> bool \<Rightarrow> jsval list \<Rightarrow> StringifyContext \<Rightarrow>
   StringifyCollectionOptions \<Rightarrow> error + (string \<times> bool \<times> bool)" where
  "stringifyCollection env cmt flow items ctx opts =
     (let ind = indent ctx;
          step = indentStep ctx;
          inFl = (flow \<or> inFlow ctx);
          itemInd = (if inFl then itemIndent opts @ step else itemIndent opts);
          c = ctx\<lparr>indent := itemInd, inFlow := inFl, ctx_type := None\<rparr>
      in case reduce_items env c inFl itemInd (length items) 0 items
                \<lparr>nodes = [], chompKeep = False, hasItemWithNewLine = False\<rparr> of
           Inl e \<Rightarrow> Inl e
         | Inr st \<Rightarrow>
             (let s =
                (if nodes st = [] then flow_start (flowChars opts) @ flow_end (flowChars opts)
                 else if inFl then
                   (let strings = map str (nodes st)
                    in if hasItemWithNewLine st \<or>
                          flow_length strings > maxFlowStringSingleLineLength env
                       then flow_lines (flow_start (flowChars opts)) (flow_end (flowChars opts))
                              ind step strings
                       else flow_single_line (flow_start (flowChars opts))
                              (flow_end (flowChars opts)) strings)
                 else block_lines ind (map (blockItem opts) (nodes st)))
              in case (if truthy_str cmt then cmt else None) of
                   Some text \<Rightarrow>
                     Inr (s @ [CHR 0x0A] @ replace_line_starts text (ind @ ''#''),
                          onComment opts, False)
                 | None \<Rightarrow> Inr (s, False, chompKeep st \<and> onChompKeep opts)))"

text \<open>
  \<open>YAMLSeq.toString(ctx, onComment, onChompKeep)\<close> (YAMLSeq.ts). \<open>JSON.stringify\<close>, used
  when there is no context, is a parameter.
\<close>

definition YAMLSeq_toString ::
  "StringifyEnv \<Rightarrow> (jsval \<Rightarrow> string) \<Rightarrow> NodeBase \<Rightarrow> bool \<Rightarrow> jsval list \<Rightarrow>
   StringifyContext option \<Rightarrow> bool \<Rightarrow> bool \<Rightarrow> error + (string \<times> bool \<times> bool)" where
  "YAMLSeq_toString env JSON_stringify this flow items ctx onCmt onChomp =
     (case ctx of
        None \<Rightarrow> Inr (JSON_stringify (YAMLSeq this flow items), False, False)
      | Some c \<Rightarrow>
          stringifyCollection env (comment this) flow items c
            \<lparr>blockItem = (\<lambda>n. if node_comment n then str n else ''- '' @ str n),
             flowChars = Brackets,
             itemIndent = indent c @ ''  '',
             onChompKeep = onChomp,
             onComment = onCmt\<rparr>)"

subsection \<open>The layout of a flow collection, item by item\<close>

text \<open>
  The statement of the layout of a flow collection, in terms of the items and of what
  \<open>stringify\<close> returns for each: \<open>r\<close> is the text of the item with the flags that tell
  whether \<open>stringify\<close> took the comment of the item and whether it asked to keep the
  chomping. An item needs the collection to be broken into lines when a blank line or a
  comment comes before it, when it or the key or value of a pair has a comment, or when
  its text holds a line feed.
\<close>

definition item_needs_lines :: "jsval \<Rightarrow> string \<times> bool \<times> bool \<Rightarrow> bool" where
  "item_needs_lines item r =
     ((case base_of item of None \<Rightarrow> False | Some b \<Rightarrow> item_breaks_line False b item) \<or>
      CHR 0x0A \<in> set (fst r))"

text \<open>
  The strings one item contributes: an empty one for a blank line before it, one \<open>#...\<close>
  for every line of the comment before it, and then its own text, followed by a comma
  unless the item is the last, and given to \<open>addComment\<close> with the comment of the item
  unless \<open>stringify\<close> has taken it.
\<close>

definition flow_item_strings ::
  "StringifyEnv \<Rightarrow> string \<Rightarrow> bool \<Rightarrow> jsval \<Rightarrow> string \<times> bool \<times> bool \<Rightarrow> string list" where
  "flow_item_strings env ind is_last item r =
     (case base_of item of
        None \<Rightarrow> []
      | Some b \<Rightarrow>
          (if spaceBefore b then [[]] else []) @
          (case commentBefore b of
             None \<Rightarrow> []
           | Some cb \<Rightarrow> if cb \<noteq> [] then map (\<lambda>line. ''#'' @ line) (match_lines cb) else [])) @
     [addComment env (fst r @ (if is_last then [] else '','')) ind
        (if fst (snd r) then None
         else (case base_of item of
                 None \<Rightarrow> None
               | Some b \<Rightarrow> if truthy_str (comment b) then comment b else None))]"

fun flow_strings ::
  "StringifyEnv \<Rightarrow> string \<Rightarrow> jsval list \<Rightarrow> (string \<times> bool \<times> bool) list \<Rightarrow> string list" where
  "flow_strings env ind (item # items) (r # rs) =
     flow_item_strings env ind (items = []) item r @ flow_strings env ind items rs"
| "flow_strings env ind items rs = []"

text \<open>The comment of the collection, as it is put after the text of the collection.\<close>

definition collection_comment :: "string option \<Rightarrow> string \<Rightarrow> string" where
  "collection_comment cmt ind =
     (case cmt of
        None \<Rightarrow> []
      | Some text \<Rightarrow> if text \<noteq> [] then [CHR 0x0A] @ replace_line_starts text (ind @ ''#'') else [])"

section \<open>resolve-flow-collection.ts\<close>

text \<open>
  The tokens of the parser (parse/tokens.js). The cases of the \<open>switch\<close> are types of
  their own; every other type, a scalar or a nested flow collection for one, is
  \<open>T_other\<close> with its name. \<open>tok_source\<close> is read on source tokens only.
\<close>

datatype token_type =
    T_space | T_comment | T_newline | T_anchor | T_tag
  | T_explicit_key_ind | T_map_value_ind | T_comma
  | T_block_map | T_block_seq | T_other string

record Token =
  tok_type :: token_type
  tok_offset :: int
  tok_source :: string

record FlowCollection =
  fc_start_source :: string
  fc_offset :: int
  fc_items :: "Token list"
  fc_end :: "Token list"

text \<open>The object that \<open>getProps()\<close> returns.\<close>

record Props =
  p_spaceBefore :: bool
  p_comment :: string
  p_anchor :: string
  p_tagName :: string

text \<open>
  What the function takes from its arguments and from modules that are not among the
  sources: \<open>ctx.options.strict\<close>; \<open>composeNode\<close> and \<open>composeEmptyNode\<close>, which return a
  node and report errors through \<open>onError\<close> (the errors are the second result, in the
  order reported); \<open>ctx.directives.tagName\<close>, which returns a tag name or \<open>null\<close> and
  hands messages to its callback; \<open>containsNewline\<close>; and \<open>resolveEnd\<close>, which returns
  the comment and the offset of the end and reports errors.
\<close>

record ComposeEnv =
  strict :: bool
  composeNode :: "Token \<Rightarrow> Props \<Rightarrow> jsval \<times> YAMLError list"
  composeEmptyNode :: "int \<Rightarrow> Token list \<Rightarrow> nat \<Rightarrow> Props \<Rightarrow> jsval \<times> YAMLError list"
  directives_tagName :: "string \<Rightarrow> string option \<times> string list"
  containsNewline :: "Token \<Rightarrow> bool"
  resolveEnd :: "Token list \<Rightarrow> int \<Rightarrow> bool \<Rightarrow> (string \<times> int) \<times> YAMLError list"

text \<open>
  The local variables of \<open>resolveFlowCollection\<close>, with the items of \<open>coll\<close>, the errors
  reported through \<open>onError\<close> so far, and the identity that the next object made with
  \<open>new\<close> gets.
\<close>

record FlowState =
  s_items :: "jsval list"
  s_key :: "jsval option"
  s_value :: "jsval option"
  s_spaceBefore :: bool
  s_comment :: string
  s_hasSpace :: bool
  s_newlines :: string
  s_anchor :: string
  s_tagName :: string
  s_offset :: int
  s_atLineStart :: bool
  s_atExplicitKey :: bool
  s_atValueEnd :: bool
  s_nlAfterValueInSeq :: bool
  s_seqKeyToken :: "Token option"
  s_errors :: "YAMLError list"
  s_next_id :: nat

definition onError :: "int \<Rightarrow> string \<Rightarrow> string \<Rightarrow> FlowState \<Rightarrow> FlowState" where
  "onError off c m st = st\<lparr>s_errors := s_errors st @ [\<lparr>offset = off, code = c, message = m\<rparr>]\<rparr>"

text \<open>
  \<open>node.range\<close> of a parsed node. The type \<open>ParsedNode\<close> makes the field mandatory; for
  a value without it, which that type excludes, the pair is \<open>(0, 0)\<close>.
\<close>

definition range_of :: "jsval \<Rightarrow> int \<times> int" where
  "range_of x = (case base_of x of
                   None \<Rightarrow> (0, 0)
                 | Some b \<Rightarrow> (case range b of None \<Rightarrow> (0, 0) | Some r \<Rightarrow> r))"

definition getProps :: "FlowState \<Rightarrow> Props \<times> FlowState" where
  "getProps st =
     (\<lparr>p_spaceBefore = s_spaceBefore st, p_comment = s_comment st,
       p_anchor = s_anchor st, p_tagName = s_tagName st\<rparr>,
      st\<lparr>s_spaceBefore := False, s_comment := [], s_newlines := [],
         s_anchor := [], s_tagName := []\<rparr>)"

text \<open>\<open>new YAMLMap(ctx.schema)\<close> with \<open>flow = true\<close> and the one item \<open>new Pair(key, value)\<close>.\<close>

definition new_flow_map :: "nat \<Rightarrow> jsval \<Rightarrow> jsval \<Rightarrow> jsval" where
  "new_flow_map i k v = YAMLMap (NodeBase_new i) True [Pair (NodeBase_new (i + 1)) k v]"

definition addItem :: "ComposeEnv \<Rightarrow> bool \<Rightarrow> Token list \<Rightarrow> nat \<Rightarrow> FlowState \<Rightarrow> FlowState" where
  "addItem env isMap items pos st =
     (let st1 =
            (case s_value st of
               Some v \<Rightarrow>
                 if s_comment st \<noteq> [] then st\<lparr>s_value := Some (set_comment (s_comment st) v)\<rparr>
                 else st
             | None \<Rightarrow>
                 (let (props, st') = getProps st;
                      (v, errs) = composeEmptyNode env (s_offset st) items pos props
                  in st'\<lparr>s_value := Some v, s_errors := s_errors st' @ errs\<rparr>));
          v = (case s_value st1 of Some v \<Rightarrow> v | None \<Rightarrow> JNull);
          i = s_next_id st1
      in if isMap \<or> s_atExplicitKey st1 then
           st1\<lparr>s_items := s_items st1 @
                  [case s_key st1 of
                     Some k \<Rightarrow> Pair (NodeBase_new i) k v
                   | None \<Rightarrow> Pair (NodeBase_new i) v JNull],
               s_next_id := i + 1\<rparr>
         else
           (case s_key st1 of
              Some k \<Rightarrow> st1\<lparr>s_items := s_items st1 @ [new_flow_map i k v], s_next_id := i + 2\<rparr>
            | None \<Rightarrow> st1\<lparr>s_items := s_items st1 @ [v]\<rparr>))"

text \<open>
  The trailing comment of the \<open>newline\<close> case: \<open>node\<close> is the last item of the
  collection, or, when that is a pair, its value or else its key; the comment is set on
  it when it is a node. \<open>None\<close> is the case the source reports as \<open>IMPOSSIBLE\<close>.
\<close>

definition set_trailing_comment :: "string \<Rightarrow> jsval list \<Rightarrow> jsval list option" where
  "set_trailing_comment c items =
     (if items = [] then None
      else (case last items of
              Pair b k v \<Rightarrow>
                if truthy v
                then (if isNode v then Some (butlast items @ [Pair b k (set_comment c v)]) else None)
                else (if isNode k then Some (butlast items @ [Pair b (set_comment c k) v]) else None)
            | node \<Rightarrow>
                if isNode node then Some (butlast items @ [set_comment c node]) else None))"

definition substring1 :: "string \<Rightarrow> string" where
  "substring1 s = drop 1 s"

definition msg_implicit_key_single_line :: string where
  "msg_implicit_key_single_line =
     ''Implicit keys of flow sequence pairs need to be on a single line''"

definition msg_key_over_1024 :: string where
  "msg_key_over_1024 =
     ''The : indicator must be at most 1024 chars after the start of an implicit flow sequence key''"

text \<open>The case \<open>map-value-ind\<close> of the \<open>switch\<close>, at the token of index \<open>i\<close>.\<close>

definition map_value_ind :: "ComposeEnv \<Rightarrow> Token list \<Rightarrow> nat \<Rightarrow> FlowState \<Rightarrow> FlowState" where
  "map_value_ind env items i st =
     (let st1 =
        (case s_key st of
           Some k \<Rightarrow>
             (case s_value st of
                Some v \<Rightarrow>
                  (let st' = onError (s_offset st) ''BLOCK_AS_IMPLICIT_KEY''
                               ''Missing {} around pair used as mapping key'' st;
                       n = s_next_id st';
                       m = YAMLMap ((NodeBase_new n)\<lparr>range := Some (fst (range_of k), snd (range_of v))\<rparr>)
                             True [Pair (NodeBase_new (n + 1)) k v]
                   in st'\<lparr>s_key := Some m, s_value := None, s_next_id := n + 2\<rparr>)
              | None \<Rightarrow> st)
         | None \<Rightarrow>
             (case s_value st of
                Some v \<Rightarrow>
                  (let st' =
                     (if strict env then
                        (if s_nlAfterValueInSeq st
                         then onError (s_offset st) ''MULTILINE_IMPLICIT_KEY''
                                msg_implicit_key_single_line st
                         else (case s_seqKeyToken st of
                                 Some kt \<Rightarrow>
                                   (let st2 = (if containsNewline env kt
                                               then onError (s_offset st) ''MULTILINE_IMPLICIT_KEY''
                                                      msg_implicit_key_single_line st
                                               else st);
                                        st3 = (if tok_offset kt < s_offset st - 1024
                                               then onError (s_offset st) ''KEY_OVER_1024_CHARS''
                                                      msg_key_over_1024 st2
                                               else st2)
                                    in st3\<lparr>s_seqKeyToken := None\<rparr>)
                               | None \<Rightarrow> st))
                      else st)
                   in st'\<lparr>s_key := Some v, s_value := None\<rparr>)
              | None \<Rightarrow>
                  (let (props, st') = getProps st;
                       (k, errs) = composeEmptyNode env (s_offset st) items i props
                   in st'\<lparr>s_key := Some k, s_errors := s_errors st' @ errs\<rparr>)));
          st2 = (if s_comment st1 \<noteq> []
                 then st1\<lparr>s_key := map_option (set_comment (s_comment st1)) (s_key st1),
                          s_comment := []\<rparr>
                 else st1)
      in st2\<lparr>s_atExplicitKey := False, s_atValueEnd := False, s_hasSpace := False\<rparr>)"

text \<open>The \<open>default\<close> case: the token is a node, composed by \<open>composeNode\<close>.\<close>

definition compose_value :: "ComposeEnv \<Rightarrow> bool \<Rightarrow> Token \<Rightarrow> FlowState \<Rightarrow> FlowState" where
  "compose_value env isMap tok st =
     (let st1 = (if s_value st \<noteq> None
                 then onError (s_offset st) ''MISSING_CHAR''
                        ''Missing , between flow collection items'' st
                 else st);
          st2 = (if \<not> isMap \<and> s_key st1 = None \<and> \<not> s_atExplicitKey st1
                 then st1\<lparr>s_seqKeyToken := Some tok\<rparr> else st1);
          (props, st3) = getProps st2;
          (v, errs) = composeNode env tok props
      in st3\<lparr>s_value := Some v, s_errors := s_errors st3 @ errs,
             s_offset := snd (range_of v), s_atLineStart := False,
             s_atValueEnd := False, s_hasSpace := False\<rparr>)"

text \<open>
  The body of the \<open>for\<close> loop over \<open>fc.items\<close>, on the token \<open>tok\<close> of index \<open>i\<close>. The
  last line of the body adds the length of a source token to \<open>offset\<close>; the \<open>default\<close>
  case clears \<open>isSourceToken\<close> and sets \<open>offset\<close> itself.
\<close>

definition add_source_length :: "Token \<Rightarrow> FlowState \<Rightarrow> FlowState" where
  "add_source_length tok st = st\<lparr>s_offset := s_offset st + int (length (tok_source tok))\<rparr>"

definition flow_step :: "ComposeEnv \<Rightarrow> bool \<Rightarrow> Token list \<Rightarrow> nat \<Rightarrow> Token \<Rightarrow> FlowState \<Rightarrow> FlowState" where
  "flow_step env isMap items i tok st =
     (case tok_type tok of
        T_space \<Rightarrow> add_source_length tok (st\<lparr>s_hasSpace := True\<rparr>)
      | T_comment \<Rightarrow>
          (let st1 = (if strict env \<and> \<not> s_hasSpace st
                      then onError (s_offset st) ''COMMENT_SPACE''
                             ''Comments must be separated from other tokens by white space characters'' st
                      else st);
               cb = substring1 (tok_source tok);
               st2 = (if s_comment st1 = [] then st1\<lparr>s_comment := cb\<rparr>
                      else st1\<lparr>s_comment := s_comment st1 @ s_newlines st1 @ cb\<rparr>)
           in add_source_length tok (st2\<lparr>s_atLineStart := False, s_newlines := []\<rparr>))
      | T_newline \<Rightarrow>
          (let st1 = (if s_atLineStart st \<and> s_comment st = []
                      then st\<lparr>s_spaceBefore := True\<rparr> else st);
               st2 =
                 (if s_atValueEnd st1 then
                    (let st' =
                       (if s_comment st1 \<noteq> [] then
                          (case set_trailing_comment (s_comment st1) (s_items st1) of
                             Some items' \<Rightarrow> st1\<lparr>s_items := items', s_comment := []\<rparr>
                           | None \<Rightarrow>
                               (onError (s_offset st1) ''IMPOSSIBLE''
                                  ''Error adding trailing comment to node'' st1)\<lparr>s_comment := []\<rparr>)
                        else st1)
                     in st'\<lparr>s_atValueEnd := False\<rparr>)
                  else
                    (let st' = st1\<lparr>s_newlines := s_newlines st1 @ tok_source tok\<rparr>
                     in if \<not> isMap \<and> s_key st' = None \<and> s_value st' \<noteq> None
                        then st'\<lparr>s_nlAfterValueInSeq := True\<rparr> else st'))
           in add_source_length tok (st2\<lparr>s_atLineStart := True, s_hasSpace := True\<rparr>))
      | T_anchor \<Rightarrow>
          (let st1 = (if s_anchor st \<noteq> []
                      then onError (s_offset st) ''MULTIPLE_ANCHORS''
                             ''A node can have at most one anchor'' st
                      else st)
           in add_source_length tok
                (st1\<lparr>s_anchor := substring1 (tok_source tok), s_atLineStart := False,
                     s_atValueEnd := False, s_hasSpace := False\<rparr>))
      | T_tag \<Rightarrow>
          (let st1 = (if s_tagName st \<noteq> []
                      then onError (s_offset st) ''MULTIPLE_TAGS''
                             ''A node can have at most one tag'' st
                      else st);
               (tn, msgs) = directives_tagName env (tok_source tok);
               st2 = fold (\<lambda>m. onError (s_offset st) ''TAG_RESOLVE_FAILED'' m) msgs st1;
               st3 = (case tn of
                        Some t \<Rightarrow> if t \<noteq> [] then st2\<lparr>s_tagName := t\<rparr> else st2
                      | None \<Rightarrow> st2)
           in add_source_length tok
                (st3\<lparr>s_atLineStart := False, s_atValueEnd := False, s_hasSpace := False\<rparr>))
      | T_explicit_key_ind \<Rightarrow>
          (let st1 = (if s_anchor st \<noteq> [] \<or> s_tagName st \<noteq> []
                      then onError (s_offset st) ''PROP_BEFORE_SEP''
                             ''Anchors and tags must be after the ? indicator'' st
                      else st)
           in add_source_length tok
                (st1\<lparr>s_atExplicitKey := True, s_atLineStart := False,
                     s_atValueEnd := False, s_hasSpace := False\<rparr>))
      | T_map_value_ind \<Rightarrow> add_source_length tok (map_value_ind env items i st)
      | T_comma \<Rightarrow>
          (let st1 = (if s_key st \<noteq> None \<or> s_value st \<noteq> None \<or> s_anchor st \<noteq> [] \<or>
                         s_tagName st \<noteq> [] \<or> s_atExplicitKey st
                      then addItem env isMap items i st
                      else onError (s_offset st) ''UNEXPECTED_TOKEN''
                             (''Unexpected , in flow '' @ (if isMap then ''map'' else ''sequence'')) st)
           in add_source_length tok
                (st1\<lparr>s_key := None, s_value := None, s_atExplicitKey := False,
                     s_atValueEnd := True, s_hasSpace := False,
                     s_nlAfterValueInSeq := False, s_seqKeyToken := None\<rparr>))
      | T_block_map \<Rightarrow>
          compose_value env isMap tok
            (onError (s_offset st) ''BLOCK_IN_FLOW''
               ''Block collections are not allowed within flow collections'' st)
      | T_block_seq \<Rightarrow>
          compose_value env isMap tok
            (onError (s_offset st) ''BLOCK_IN_FLOW''
               ''Block collections are not allowed within flow collections'' st)
      | T_other name \<Rightarrow> compose_value env isMap tok st)"

text \<open>The loop \<open>for (let i = 0; i < fc.items.length; ++i)\<close> from index \<open>i\<close> on.\<close>

fun flow_loop :: "ComposeEnv \<Rightarrow> bool \<Rightarrow> Token list \<Rightarrow> nat \<Rightarrow> Token list \<Rightarrow> FlowState \<Rightarrow> FlowState" where
  "flow_loop env isMap items i [] st = st"
| "flow_loop env isMap items i (tok # rest) st =
     flow_loop env isMap items (Suc i) rest (flow_step env isMap items i tok st)"

definition initial_state :: "FlowCollection \<Rightarrow> nat \<Rightarrow> FlowState" where
  "initial_state fc n =
     \<lparr>s_items = [], s_key = None, s_value = None, s_spaceBefore = False, s_comment = [],
      s_hasSpace = False, s_newlines = [], s_anchor = [], s_tagName = [],
      s_offset = fc_offset fc + 1, s_atLineStart = False, s_atExplicitKey = False,
      s_atValueEnd = False, s_nlAfterValueInSeq = False, s_seqKeyToken = None,
      s_errors = [], s_next_id = n\<rparr>"

text \<open>
  The state when the loop is over and the item that is still open has been added.
\<close>

definition flow_items_state :: "ComposeEnv \<Rightarrow> FlowCollection \<Rightarrow> nat \<Rightarrow> FlowState" where
  "flow_items_state env fc n =
     (let isMap = (fc_start_source fc = ''{'');
          st = flow_loop env isMap (fc_items fc) 0 (fc_items fc) (initial_state fc (n + 1))
      in if s_key st \<noteq> None \<or> s_value st \<noteq> None \<or> s_anchor st \<noteq> [] \<or>
            s_tagName st \<noteq> [] \<or> s_atExplicitKey st
         then addItem env isMap (fc_items fc) (length (fc_items fc)) st
         else st)"

text \<open>
  \<open>resolveFlowCollection(cn, ctx, fc, onError)\<close>. \<open>n\<close> is the identity of the collection
  object it makes. The result is the collection with the errors reported, in order.
\<close>

definition resolveFlowCollection ::
  "ComposeEnv \<Rightarrow> FlowCollection \<Rightarrow> nat \<Rightarrow> jsval \<times> YAMLError list" where
  "resolveFlowCollection env fc n =
     (let isMap = (fc_start_source fc = ''{'');
          st = flow_items_state env fc n;
          expectedEnd = (if isMap then ''}'' else '']'');
          st1 = (case fc_end fc of
                   [] \<Rightarrow> onError (s_offset st) ''MISSING_CHAR''
                           (''Expected flow '' @ (if isMap then ''map'' else ''sequence'') @
                            '' to end with '' @ expectedEnd) st
                 | ce # ee \<Rightarrow>
                     if tok_source ce \<noteq> expectedEnd
                     then onError (s_offset st) ''MISSING_CHAR''
                            (''Expected flow '' @ (if isMap then ''map'' else ''sequence'') @
                             '' to end with '' @ expectedEnd) st
                     else st);
          st2 = (case fc_end fc of
                   [] \<Rightarrow> st1
                 | ce # ee \<Rightarrow> add_source_length ce st1);
          ee = tl (fc_end fc);
          (coll_comment, st3) =
            (if length ee > 0 then
               (let ((end_comment, end_offset), errs) = resolveEnd env ee (s_offset st2) (strict env)
                in (if end_comment \<noteq> [] then Some (s_comment st2) else None,
                    st2\<lparr>s_errors := s_errors st2 @ errs, s_offset := end_offset\<rparr>))
             else (None, st2));
          b = (NodeBase_new n)\<lparr>comment := coll_comment,
                                 range := Some (fc_offset fc, s_offset st3)\<rparr>
      in (if isMap then YAMLMap b True (s_items st3) else YAMLSeq b True (s_items st3),
          s_errors st3))"

text \<open>
  The invariant of the loop for a flow sequence without a \<open>?\<close> indicator: the loop is
  not after such an indicator, every item added so far is a node, and so is the value
  that is waiting to be added.
\<close>

definition seq_state_ok :: "FlowState \<Rightarrow> bool" where
  "seq_state_ok st =
     (\<not> s_atExplicitKey st \<and> list_all isNode (s_items st) \<and>
      (case s_value st of None \<Rightarrow> True | Some v \<Rightarrow> isNode v))"

section \<open>public-api.ts\<close>

text \<open>
  The options \<open>parseOptions\<close> reads. A \<open>LineCounter\<close> is its list of line starts;
  \<open>new LineCounter()\<close> has none.
\<close>

type_synonym LineCounter = "int list"

record ParseOptions =
  opt_prettyErrors :: "bool option"
  opt_lineCounter :: "LineCounter option"

definition parseOptions :: "ParseOptions option \<Rightarrow> LineCounter option \<times> bool" where
  "parseOptions options =
     (let prettyErrors = (case options of
                            None \<Rightarrow> True
                          | Some opts \<Rightarrow> opt_prettyErrors opts \<noteq> Some False);
          lineCounter = (case (case options of None \<Rightarrow> None | Some opts \<Rightarrow> opt_lineCounter opts) of
                           Some lc \<Rightarrow> Some lc
                         | None \<Rightarrow> if prettyErrors then Some [] else None)
      in (lineCounter, prettyErrors))"

text \<open>
  What \<open>parseDocument\<close> takes from modules that are not among the sources.
  \<open>composed_documents source options\<close> are the documents that the \<open>Composer\<close> hands to
  its callback, in order, while \<open>parser.parse(source)\<close> and then
  \<open>composer.end(true, source.length)\<close> run; \<open>line_starts source lc\<close> is the line counter
  after the parser has called \<open>addNewLine\<close> on it; \<open>prettifyError source lc\<close> is the
  function applied to every error and warning.
\<close>

record ParseEnv =
  composed_documents :: "string \<Rightarrow> ParseOptions option \<Rightarrow> Document list"
  line_starts :: "string \<Rightarrow> LineCounter \<Rightarrow> LineCounter"
  prettifyError :: "string \<Rightarrow> LineCounter \<Rightarrow> YAMLError \<Rightarrow> YAMLError"

definition multiple_docs_error :: "int \<Rightarrow> YAMLError" where
  "multiple_docs_error off =
     \<lparr>offset = off, code = ''MULTIPLE_DOCS'',
      message = ''Source contains multiple documents; please use YAML.parseAllDocuments()''\<rparr>"

text \<open>
  The callback that \<open>parseDocument\<close> gives to the \<open>Composer\<close>, on the variable \<open>doc\<close>
  (\<open>None\<close> is \<open>null\<close>) and the document \<open>_doc\<close> it is called with.
\<close>

definition on_document :: "Document \<Rightarrow> Document option \<Rightarrow> Document option" where
  "on_document new_doc d =
     (case d of
        None \<Rightarrow> Some new_doc
      | Some first \<Rightarrow>
          if logLevel first \<noteq> ''silent''
          then Some (first\<lparr>errors := errors first @ [multiple_docs_error (fst (doc_range new_doc))]\<rparr>)
          else Some first)"

text \<open>
  \<open>parseDocument(source, options)\<close>. Were \<open>doc\<close> still \<open>null\<close> after the composer has
  ended, reading \<open>doc.errors\<close> would throw a \<open>TypeError\<close>.
\<close>

definition parseDocument :: "ParseEnv \<Rightarrow> string \<Rightarrow> ParseOptions option \<Rightarrow> error + Document" where
  "parseDocument env source options =
     (let (lineCounter, prettyErrors) = parseOptions options;
          d = fold on_document (composed_documents env source options) None
      in case d of
           None \<Rightarrow> Inl (TypeError ''Cannot read properties of null'')
         | Some first \<Rightarrow>
             (case (if prettyErrors then lineCounter else None) of
                Some lc \<Rightarrow>
                  Inr (first\<lparr>errors := map (prettifyError env source (line_starts env source lc))
                                          (errors first),
                             warnings := map (prettifyError env source (line_starts env source lc))
                                            (warnings first)\<rparr>)
              | None \<Rightarrow> Inr first))"

section \<open>Concrete inputs\<close>

text \<open>
  The document \<open>[ &a x, *a ]\<close>: a sequence (object 0) of a scalar with the anchor \<open>a\<close>
  (object 1) and an alias to \<open>a\<close> (object 2); and a context for its conversion in which
  the scalar has been converted and registered with \<open>count = n\<close>.
\<close>

definition ex_alias_doc :: Document where
  "ex_alias_doc =
     \<lparr>contents = YAMLSeq (NodeBase_new 0) False
        [Scalar ((NodeBase_new 1)\<lparr>anchor := Some ''a''\<rparr>) (JStr ''x''),
         Alias (NodeBase_new 2) ''a''],
      errors = [], warnings = [], doc_range = (0, 0), logLevel = ''warn''\<rparr>"

definition ex_tojs_ctx :: "int \<Rightarrow> int \<Rightarrow> ToJSContext" where
  "ex_tojs_ctx n m =
     \<lparr>anchors = [1 \<mapsto> \<lparr>aliasCount = 0, count = n, res = JStr ''x''\<rparr>],
      doc = ex_alias_doc, maxAliasCount = m\<rparr>"

text \<open>
  The document \<open>[ &a x, &a y, *a, &a z ]\<close>: the anchor \<open>a\<close> is set three times, twice
  before the alias (object 3) and once after it.
\<close>

definition ex_shadow_doc :: Document where
  "ex_shadow_doc =
     \<lparr>contents = YAMLSeq (NodeBase_new 0) False
        [Scalar ((NodeBase_new 1)\<lparr>anchor := Some ''a''\<rparr>) (JStr ''x''),
         Scalar ((NodeBase_new 2)\<lparr>anchor := Some ''a''\<rparr>) (JStr ''y''),
         Alias (NodeBase_new 3) ''a'',
         Scalar ((NodeBase_new 4)\<lparr>anchor := Some ''a''\<rparr>) (JStr ''z'')],
      errors = [], warnings = [], doc_range = (0, 0), logLevel = ''warn''\<rparr>"

text \<open>The document \<open>[ *b ]\<close>, whose alias has no anchor before it.\<close>

definition ex_dangling_doc :: Document where
  "ex_dangling_doc =
     \<lparr>contents = YAMLSeq (NodeBase_new 0) False [Alias (NodeBase_new 1) ''b''],
      errors = [], warnings = [], doc_range = (0, 0), logLevel = ''warn''\<rparr>"

definition ex_stringify_ctx :: "bool \<Rightarrow> StringifyContext" where
  "ex_stringify_ctx verify =
     \<lparr>ctx_anchors = {}, implicitKey = False, indent = [], indentStep = ''  '',
      inFlow = False, ctx_type = None, verifyAliasOrder = verify\<rparr>"

text \<open>The items of a sequence with a plain string and a scalar node.\<close>

definition ex_seq_items :: "jsval list" where
  "ex_seq_items = [JStr ''a'', Scalar (NodeBase_new 1) (JStr ''b'')]"


text \<open>
  A source with two documents, \<open>a\<close> and \<open>b\<close> separated by \<open>---\<close>, and a composer that
  hands over the two documents with the given log level of the options; the second
  document starts at offset 2. Errors are left as they are by \<open>prettifyError\<close> here.
\<close>

definition ex_two_docs_source :: string where
  "ex_two_docs_source = ''a'' @ [CHR 0x0A] @ ''---'' @ [CHR 0x0A] @ ''b'' @ [CHR 0x0A]"

definition ex_parsed_doc :: "string \<Rightarrow> string \<Rightarrow> int \<Rightarrow> Document" where
  "ex_parsed_doc level text start =
     \<lparr>contents = Scalar (NodeBase_new 0) (JStr text), errors = [], warnings = [],
      doc_range = (start, start + 2), logLevel = level\<rparr>"

definition ex_parse_env :: "string \<Rightarrow> ParseEnv" where
  "ex_parse_env level =
     \<lparr>composed_documents = (\<lambda>source options. [ex_parsed_doc level ''a'' 0, ex_parsed_doc level ''b'' 2]),
      line_starts = (\<lambda>source lc. lc),
      prettifyError = (\<lambda>source lc e. e)\<rparr>"


text \<open>
  A stringifier for the items that renders every item as \<open>a\<close>, an \<open>addComment\<close> that
  puts a comment after the text, and the bound 60 on the length of the single line.
\<close>

definition ex_stringify_env :: StringifyEnv where
  "ex_stringify_env =
     \<lparr>stringify = (\<lambda>item c. Inr (''a'', False, False)),
      addComment = (\<lambda>s ind cmt. case cmt of None \<Rightarrow> s | Some text \<Rightarrow> s @ '' #'' @ text),
      maxFlowStringSingleLineLength = 60\<rparr>"

text \<open>A scalar item with a blank line before it and no comment.\<close>

definition ex_spaced_item :: jsval where
  "ex_spaced_item = Scalar ((NodeBase_new 1)\<lparr>spaceBefore := True\<rparr>) (JStr ''a'')"

text \<open>
  A composer environment for flow collections whose \<open>composeNode\<close> makes a scalar of the
  source of a token, from the offset of the token to the end of its source, and whose
  \<open>composeEmptyNode\<close> makes an empty scalar at the offset; nothing reports an error.
\<close>

definition ex_compose_env :: "bool \<Rightarrow> ComposeEnv" where
  "ex_compose_env s =
     \<lparr>strict = s,
      composeNode = (\<lambda>tok props.
         (Scalar ((NodeBase_new (100 + nat (tok_offset tok)))
                    \<lparr>range := Some (tok_offset tok, tok_offset tok + int (length (tok_source tok)))\<rparr>)
            (JStr (tok_source tok)), [])),
      composeEmptyNode = (\<lambda>off items pos props.
         (Scalar ((NodeBase_new (100 + nat off))\<lparr>range := Some (off, off)\<rparr>) JNull, [])),
      directives_tagName = (\<lambda>source. (Some source, [])),
      containsNewline = (\<lambda>tok. False),
      resolveEnd = (\<lambda>ee off s. (([], off), []))\<rparr>"

text \<open>
  The flow sequence \<open>[k...k: v]\<close> at offset 0 whose key is a plain scalar of 1030
  characters: the key starts at offset 1 and the \<open>:\<close> stands at offset 1031.
\<close>

definition ex_long_key :: Token where
  "ex_long_key = \<lparr>tok_type = T_other ''scalar'', tok_offset = 1,
                  tok_source = replicate 1030 (CHR ''k'')\<rparr>"

definition ex_long_key_fc :: FlowCollection where
  "ex_long_key_fc =
     \<lparr>fc_start_source = ''['', fc_offset = 0,
      fc_items =
        [ex_long_key,
         \<lparr>tok_type = T_map_value_ind, tok_offset = 1031, tok_source = '':''\<rparr>,
         \<lparr>tok_type = T_space, tok_offset = 1032, tok_source = '' ''\<rparr>,
         \<lparr>tok_type = T_other ''scalar'', tok_offset = 1033, tok_source = ''v''\<rparr>],
      fc_end = [\<lparr>tok_type = T_other ''flow-seq-end'', tok_offset = 1034, tok_source = '']''\<rparr>]\<rparr>"



text \<open>The flow sequence \<open>[? a]\<close>: an explicit key with no \<open>:\<close> after it.\<close>

definition ex_explicit_key_fc :: FlowCollection where
  "ex_explicit_key_fc =
     \<lparr>fc_start_source = ''['', fc_offset = 0,
      fc_items =
        [\<lparr>tok_type = T_explicit_key_ind, tok_offset = 1, tok_source = ''?''\<rparr>,
         \<lparr>tok_type = T_space, tok_offset = 2, tok_source = '' ''\<rparr>,
         \<lparr>tok_type = T_other ''scalar'', tok_offset = 3, tok_source = ''a''\<rparr>],
      fc_end = [\<lparr>tok_type = T_other ''flow-seq-end'', tok_offset = 4, tok_source = '']''\<rparr>]\<rparr>"

section \<open>Properties of alias resolution\<close>

lemma find_app:
  "find P (xs @ ys) = (case find P xs of None \<Rightarrow> find P ys | Some x \<Rightarrow> Some x)"
  by (induction xs) auto

lemma resolve_visitor_find:
  "resolve_visitor this src ns found =
     (case find (\<lambda>n. anchor_of n = Some src)
             (rev (takeWhile (\<lambda>n. node_id n \<noteq> Some (nid this)) ns)) of
        None \<Rightarrow> found
      | Some n \<Rightarrow> Some n)"
proof (induction ns arbitrary: found)
  case Nil
  then show ?case by simp
next
  case (Cons n ns)
  then show ?case
    by (auto simp: find_app split: option.splits)
qed

text \<open>
  C3. \<open>Alias.resolve\<close> returns the last node, in the order the document is visited, that
  comes before the alias itself and whose anchor is the alias's source label: of the
  nodes visited before the alias, taken latest first, the first one with that anchor.
  A later node with the label therefore shadows an earlier one. When no node before the
  alias has the label, the result is \<open>undefined\<close>.
\<close>

theorem Alias_resolve_last_preceding:
  "Alias_resolve this src d =
     find (\<lambda>n. anchor_of n = Some src)
       (rev (takeWhile (\<lambda>n. node_id n \<noteq> Some (nid this)) (visit_nodes (contents d))))"
  by (simp add: Alias_resolve_def resolve_visitor_find split: option.splits)

text \<open>
  On \<open>[ &a x, &a y, *a, &a z ]\<close> the alias resolves to \<open>y\<close>: the later of the two
  anchors before it, and not the one after it.
\<close>

lemma Alias_resolve_shadowing:
  "Alias_resolve (NodeBase_new 3) ''a'' ex_shadow_doc
     = Some (Scalar ((NodeBase_new 2)\<lparr>anchor := Some ''a''\<rparr>) (JStr ''y''))"
  by (simp add: Alias_resolve_def ex_shadow_doc_def NodeBase_new_def)

lemma msgs_distinct [simp]:
  "unresolved_msg s \<noteq> excessive_msg" "not_resolved_msg \<noteq> excessive_msg"
  by (simp_all add: unresolved_msg_def excessive_msg_def not_resolved_msg_def)

lemma anchors_get_set [simp]:
  "node_id n \<noteq> None \<Longrightarrow> anchors_get (anchors_set tbl n d) n = Some d"
  by (auto simp: anchors_get_def anchors_set_def)

lemma NodeBase_new_sel [simp]:
  "nid (NodeBase_new i) = i" "anchor (NodeBase_new i) = None"
  by (simp_all add: NodeBase_new_def)


lemma ex_resolve: "Alias_resolve (NodeBase_new 2) ''a'' ex_alias_doc
   = Some (Scalar ((NodeBase_new 1)\<lparr>anchor := Some ''a''\<rparr>) (JStr ''x''))"
  by (simp add: Alias_resolve_def ex_alias_doc_def)



text \<open>
  C2, counterexample. The spec has \<open>maxAliasCount: 0\<close> still allow well-formed aliases.
  It does not on \<open>[ &a x, *a ]\<close>: the alias is well formed (it
  resolves to the scalar before it), and with \<open>maxAliasCount = 0\<close> its conversion throws
  the excessive-alias-count error, whether the scalar was registered with a count of 1
  or of 0.
\<close>

theorem maxAliasCount_zero_counterexample:
  "Alias_resolve (NodeBase_new 2) ''a'' ex_alias_doc
     = Some (Scalar ((NodeBase_new 1)\<lparr>anchor := Some ''a''\<rparr>) (JStr ''x'')) \<and>
   fst (Alias_toJSON (NodeBase_new 2) ''a'' (Some (ex_tojs_ctx 1 0)))
     = Inl (ReferenceError excessive_msg) \<and>
   fst (Alias_toJSON (NodeBase_new 2) ''a'' (Some (ex_tojs_ctx 0 0)))
     = Inl (ReferenceError excessive_msg)"
  by (simp add: ex_resolve Alias_toJSON_def ex_tojs_ctx_def anchors_get_def anchors_set_def)

text \<open>
  C2, amended. With \<open>maxAliasCount = 0\<close>, the conversion of a well-formed alias whose
  anchor is registered with a count that is not negative and an alias count not yet
  computed succeeds exactly when the alias count of the anchored node is not positive:
  it throws the excessive-alias-count error for every anchored scalar, and returns the
  value of the anchor for an anchored empty collection.
\<close>

theorem maxAliasCount_zero:
  assumes "maxAliasCount c = 0"
    and "Alias_resolve this src (doc c) = Some source"
    and "anchors_get (anchors c) source = Some data"
    and "res data \<noteq> JUndefined"
    and "aliasCount data = 0"
    and "0 \<le> count data"
  shows "fst (Alias_toJSON this src (Some c)) =
           (if 0 < getAliasCount (doc c) source
                     (anchors_set (anchors c) source (data\<lparr>count := count data + 1\<rparr>))
            then Inl (ReferenceError excessive_msg) else Inr (res data)) \<and>
         (isScalar source \<longrightarrow>
            fst (Alias_toJSON this src (Some c)) = Inl (ReferenceError excessive_msg)) \<and>
         (isCollection source \<and> items_of source = [] \<longrightarrow>
            fst (Alias_toJSON this src (Some c)) = Inr (res data))"
proof -
  let ?tbl = "anchors_set (anchors c) source (data\<lparr>count := count data + 1\<rparr>)"
  let ?ac = "getAliasCount (doc c) source ?tbl"
  have pos: "0 < count data + 1" using assms(6) by simp
  have prod: "(0 < (count data + 1) * ?ac) = (0 < ?ac)"
    using pos by (simp add: zero_less_mult_iff)
  have main: "fst (Alias_toJSON this src (Some c)) =
      (if 0 < ?ac then Inl (ReferenceError excessive_msg) else Inr (res data))"
    using assms(1-5) prod by (simp add: Alias_toJSON_def Let_def)
  have sc: "isScalar source \<Longrightarrow> ?ac = 1"
    by (cases source) simp_all
  have co: "isCollection source \<and> items_of source = [] \<Longrightarrow> ?ac = 0"
    by (cases source) simp_all
  show ?thesis using main sc co by auto
qed

text \<open>
  The amended C2 on \<open>[ &a x, *a ]\<close>: every hypothesis holds there, the anchor is on a
  scalar, and the conversion throws.
\<close>

theorem maxAliasCount_zero_witness:
  "maxAliasCount (ex_tojs_ctx 1 0) = 0 \<and>
   fst (Alias_toJSON (NodeBase_new 2) ''a'' (Some (ex_tojs_ctx 1 0)))
     = Inl (ReferenceError excessive_msg)"
proof -
  have h1: "maxAliasCount (ex_tojs_ctx 1 0) = 0" by (simp add: ex_tojs_ctx_def)
  have h2: "Alias_resolve (NodeBase_new 2) ''a'' (doc (ex_tojs_ctx 1 0))
     = Some (Scalar ((NodeBase_new 1)\<lparr>anchor := Some ''a''\<rparr>) (JStr ''x''))"
    by (simp add: ex_tojs_ctx_def ex_resolve)
  have h3: "anchors_get (anchors (ex_tojs_ctx 1 0))
       (Scalar ((NodeBase_new 1)\<lparr>anchor := Some ''a''\<rparr>) (JStr ''x''))
     = Some \<lparr>aliasCount = 0, count = 1, res = JStr ''x''\<rparr>"
    by (simp add: ex_tojs_ctx_def anchors_get_def)
  have h4: "res \<lparr>aliasCount = 0, count = 1, res = JStr ''x''\<rparr> \<noteq> JUndefined" by simp
  have h5: "aliasCount \<lparr>aliasCount = 0, count = 1, res = JStr ''x''\<rparr> = 0" by simp
  have h6: "0 \<le> count \<lparr>aliasCount = 0, count = 1, res = JStr ''x''\<rparr>" by simp
  from maxAliasCount_zero [OF h1 h2 h3 h4 h5 h6] h1 show ?thesis by simp
qed

lemma find_rev_None:
  "(\<forall>n\<in>set ns. \<not> P n) \<Longrightarrow> find P (rev ns) = None"
  by (simp add: find_None_iff)

text \<open>
  C4. An alias whose source label is the anchor of no node visited before it in the
  document is not resolved: its conversion to a native value with a context throws a
  \<open>ReferenceError\<close>. In stringification with a context, for a label that
  \<open>anchorIsValid\<close> accepts and that is not among the anchors emitted so far, an error is
  thrown exactly when \<open>verifyAliasOrder\<close> is set; otherwise the text \<open>*label\<close> is
  returned (followed by a space when the alias is an implicit key). Without a context
  \<open>toString\<close> returns \<open>*label\<close>.
\<close>

theorem Alias_unresolved:
  "((\<forall>n \<in> set (takeWhile (\<lambda>n. node_id n \<noteq> Some (nid this)) (visit_nodes (contents (doc c)))).
       anchor_of n \<noteq> Some src) \<longrightarrow>
     fst (Alias_toJSON this src (Some c)) = Inl (ReferenceError (unresolved_msg src))) \<and>
   (src \<notin> ctx_anchors sc \<longrightarrow> anchorIsValid src = None \<longrightarrow>
     Alias_toString anchorIsValid src (Some sc) =
       (if verifyAliasOrder sc then Inl (Error (unresolved_msg src))
        else Inr (''*'' @ src @ (if implicitKey sc then '' '' else [])))) \<and>
   Alias_toString anchorIsValid src None = Inr (''*'' @ src)"
proof (intro conjI impI)
  assume "\<forall>n \<in> set (takeWhile (\<lambda>n. node_id n \<noteq> Some (nid this)) (visit_nodes (contents (doc c)))).
       anchor_of n \<noteq> Some src"
  then have "Alias_resolve this src (doc c) = None"
    by (simp add: Alias_resolve_def resolve_visitor_find find_rev_None)
  then show "fst (Alias_toJSON this src (Some c)) = Inl (ReferenceError (unresolved_msg src))"
    by (simp add: Alias_toJSON_def)
next
  assume "src \<notin> ctx_anchors sc" and "anchorIsValid src = None"
  then show "Alias_toString anchorIsValid src (Some sc) =
       (if verifyAliasOrder sc then Inl (Error (unresolved_msg src))
        else Inr (''*'' @ src @ (if implicitKey sc then '' '' else [])))"
    by (simp add: Alias_toString_def)
next
  show "Alias_toString anchorIsValid src None = Inr (''*'' @ src)"
    by (simp add: Alias_toString_def)
qed

text \<open>
  C4 on \<open>[ *b ]\<close>: no node comes before the alias, its conversion throws, and its
  stringification throws with \<open>verifyAliasOrder\<close> and returns \<open>*b\<close> without.
\<close>

theorem Alias_unresolved_witness:
  "fst (Alias_toJSON (NodeBase_new 1) ''b''
         (Some \<lparr>anchors = Map.empty, doc = ex_dangling_doc, maxAliasCount = 100\<rparr>))
     = Inl (ReferenceError (unresolved_msg ''b'')) \<and>
   Alias_toString (\<lambda>s. None) ''b'' (Some (ex_stringify_ctx True))
     = Inl (Error (unresolved_msg ''b'')) \<and>
   Alias_toString (\<lambda>s. None) ''b'' (Some (ex_stringify_ctx False)) = Inr ''*b''"
  using Alias_unresolved [of "NodeBase_new 1"
      "\<lparr>anchors = Map.empty, doc = ex_dangling_doc, maxAliasCount = 100\<rparr>" "''b''"
      "ex_stringify_ctx True" "\<lambda>s. None"]
    Alias_unresolved [of "NodeBase_new 1"
      "\<lparr>anchors = Map.empty, doc = ex_dangling_doc, maxAliasCount = 100\<rparr>" "''b''"
      "ex_stringify_ctx False" "\<lambda>s. None"]
  by (simp add: ex_dangling_doc_def ex_stringify_ctx_def)
section \<open>Properties of YAMLSeq\<close>

lemma asItemIndex_represents:
  "asItemIndex N key = Some i \<longleftrightarrow> represents_index N key i"
proof -
  have num: "(if q = of_int \<lfloor>q\<rfloor> \<and> q \<ge> 0 then Some (nat \<lfloor>q\<rfloor>) else None) = Some i
      \<longleftrightarrow> q = of_nat i" for q :: rat
  proof
    assume "(if q = of_int \<lfloor>q\<rfloor> \<and> q \<ge> 0 then Some (nat \<lfloor>q\<rfloor>) else None) = Some i"
    then have q: "q = of_int \<lfloor>q\<rfloor>" and nn: "q \<ge> 0" and i: "i = nat \<lfloor>q\<rfloor>"
      by (auto split: if_splits)
    from nn have "0 \<le> \<lfloor>q\<rfloor>" by simp
    then have "of_nat (nat \<lfloor>q\<rfloor>) = (of_int \<lfloor>q\<rfloor> :: rat)" by simp
    with q i show "q = of_nat i" by simp
  next
    assume "q = of_nat i"
    then show "(if q = of_int \<lfloor>q\<rfloor> \<and> q \<ge> 0 then Some (nat \<lfloor>q\<rfloor>) else None) = Some i"
      by simp
  qed
  have idx: "(case v of JNum (Fin q) \<Rightarrow> if q = of_int \<lfloor>q\<rfloor> \<and> q \<ge> 0 then Some (nat \<lfloor>q\<rfloor>) else None
                 | _ \<Rightarrow> None) = Some i \<longleftrightarrow> v = JNum (Fin (of_nat i))" for v
    using num by (auto split: jsval.splits jsnum.splits)
  define u where "u = (case key of Scalar b v \<Rightarrow> v | _ \<Rightarrow> key)"
  define w where "w = (case u of JStr s \<Rightarrow> if s \<noteq> [] then JNum (N s) else u | _ \<Rightarrow> u)"
  have a: "asItemIndex N key =
      (case w of JNum (Fin q) \<Rightarrow> if q = of_int \<lfloor>q\<rfloor> \<and> q \<ge> 0 then Some (nat \<lfloor>q\<rfloor>) else None
               | _ \<Rightarrow> None)"
    unfolding asItemIndex_def Let_def w_def u_def by (rule refl)
  have r: "represents_index N key i \<longleftrightarrow> w = JNum (Fin (of_nat i))"
    unfolding represents_index_def u_def [symmetric] w_def by (cases u) auto
  show ?thesis unfolding a r by (rule idx)
qed

lemma asItemIndex_None:
  "asItemIndex N key = None \<longleftrightarrow> (\<forall>i. \<not> represents_index N key i)"
  using asItemIndex_represents [of N key] by (cases "asItemIndex N key") auto

text \<open>
  C8. A key represents the index \<open>i\<close> when, taken out of a wrapping scalar, it is the
  number \<open>i\<close> or a non-empty string that converts to it. For a key that represents no
  non-negative integer, \<open>get\<close> returns \<open>undefined\<close>, \<open>has\<close> and \<open>delete\<close> return
  \<open>false\<close> (and \<open>delete\<close> leaves the items as they are), and \<open>set\<close> throws. For a key
  that represents \<open>i\<close>, \<open>get\<close> returns the item at \<open>i\<close> (\<open>undefined\<close> past the end),
  and the value of a scalar item in place of the scalar unless \<open>keepScalar\<close> is set.
\<close>

theorem YAMLSeq_index_key:
  "((\<forall>i. \<not> represents_index N key i) \<longrightarrow>
      YAMLSeq_get N items key keepScalar = JUndefined \<and>
      \<not> YAMLSeq_has N items key \<and>
      YAMLSeq_delete N items key = (False, items) \<and>
      YAMLSeq_set N S isv items key v =
        Inl (Error (''Expected a valid index, not '' @ S key @ ''.''))) \<and>
   (represents_index N key i \<longrightarrow>
      YAMLSeq_get N items key keepScalar =
        (if i < length items
         then (case items ! i of
                 Scalar b x \<Rightarrow> if keepScalar then Scalar b x else x
               | it \<Rightarrow> it)
         else JUndefined))"
proof (intro conjI impI)
  assume "\<forall>i. \<not> represents_index N key i"
  then have n: "asItemIndex N key = None" by (simp add: asItemIndex_None)
  show "YAMLSeq_get N items key keepScalar = JUndefined"
    by (simp add: YAMLSeq_get_def n)
  show "\<not> YAMLSeq_has N items key"
    by (simp add: YAMLSeq_has_def n)
  show "YAMLSeq_delete N items key = (False, items)"
    by (simp add: YAMLSeq_delete_def n)
  show "YAMLSeq_set N S isv items key v =
        Inl (Error (''Expected a valid index, not '' @ S key @ ''.''))"
    by (simp add: YAMLSeq_set_def n)
next
  assume "represents_index N key i"
  then have s: "asItemIndex N key = Some i" by (simp add: asItemIndex_represents)
  show "YAMLSeq_get N items key keepScalar =
        (if i < length items
         then (case items ! i of
                 Scalar b x \<Rightarrow> if keepScalar then Scalar b x else x
               | it \<Rightarrow> it)
         else JUndefined)"
    by (simp add: YAMLSeq_get_def s array_get_def Let_def split: jsval.splits)
qed

text \<open>
  C8 on the items \<open>[ a, Scalar b ]\<close>: the key \<open>true\<close> is no index, and the key 1
  wrapped in a scalar gives the second item, unwrapped or kept.
\<close>

theorem YAMLSeq_index_key_witness:
  "YAMLSeq_get (\<lambda>s. NaN) ex_seq_items (JBool True) False = JUndefined \<and>
   \<not> YAMLSeq_has (\<lambda>s. NaN) ex_seq_items (JBool True) \<and>
   YAMLSeq_delete (\<lambda>s. NaN) ex_seq_items (JBool True) = (False, ex_seq_items) \<and>
   YAMLSeq_set (\<lambda>s. NaN) (\<lambda>k. ''true'') (\<lambda>v. True) ex_seq_items (JBool True) JNull =
     Inl (Error ''Expected a valid index, not true.'') \<and>
   YAMLSeq_get (\<lambda>s. NaN) ex_seq_items (Scalar (NodeBase_new 7) (JNum (Fin 1))) False = JStr ''b'' \<and>
   YAMLSeq_get (\<lambda>s. NaN) ex_seq_items (Scalar (NodeBase_new 7) (JNum (Fin 1))) True
     = Scalar (NodeBase_new 1) (JStr ''b'')"
  using YAMLSeq_index_key [of "\<lambda>s. NaN" "JBool True" ex_seq_items False "\<lambda>k. ''true''"
      "\<lambda>v. True" JNull 0]
    YAMLSeq_index_key [of "\<lambda>s. NaN" "Scalar (NodeBase_new 7) (JNum (Fin 1))" ex_seq_items
      False "\<lambda>k. ''true''" "\<lambda>v. True" JNull 1]
    YAMLSeq_index_key [of "\<lambda>s. NaN" "Scalar (NodeBase_new 7) (JNum (Fin 1))" ex_seq_items
      True "\<lambda>k. ''true''" "\<lambda>v. True" JNull 1]
  by (simp add: represents_index_def ex_seq_items_def)

section \<open>Properties of parseDocument\<close>

lemma on_document_Some:
  "on_document x (Some d) =
     (if logLevel d \<noteq> ''silent''
      then Some (d\<lparr>errors := errors d @ [multiple_docs_error (fst (doc_range x))]\<rparr>)
      else Some d)"
  by (simp add: on_document_def)

lemma on_document_None: "on_document x None = Some x"
  by (simp add: on_document_def)

lemma fold_on_document:
  "fold on_document ds (Some d) =
     Some (d\<lparr>errors := errors d @
       (if logLevel d \<noteq> ''silent''
        then map (\<lambda>x. multiple_docs_error (fst (doc_range x))) ds else [])\<rparr>)"
proof (induction ds arbitrary: d)
  case Nil
  then show ?case by simp
next
  case (Cons x ds)
  show ?case
    by (simp add: on_document_Some Cons.IH)
qed

text \<open>
  C6, counterexample. The spec has every further document append a \<open>MULTIPLE_DOCS\<close>
  error. None is appended when the log level of the first document is
  \<open>silent\<close>: the composer hands over two documents, and \<open>parseDocument\<close> returns the
  first one with no error added.
\<close>

theorem parseDocument_first_document_counterexample:
  "length (composed_documents (ex_parse_env ''silent'') ex_two_docs_source None) = 2 \<and>
   parseDocument (ex_parse_env ''silent'') ex_two_docs_source None
     = Inr (ex_parsed_doc ''silent'' ''a'' 0) \<and>
   errors (ex_parsed_doc ''silent'' ''a'' 0) = []"
  by (simp add: parseDocument_def parseOptions_def ex_parse_env_def on_document_None
      on_document_Some ex_parsed_doc_def)

text \<open>
  C6, amended. When the composer hands over a first document and further ones,
  \<open>parseDocument\<close> returns the first document; unless the log level of its options is
  \<open>silent\<close>, its list of errors has gained one \<open>MULTIPLE_DOCS\<close> error for every
  further document, in order, at the offset where that document starts; with the log
  level \<open>silent\<close> nothing is added. With pretty errors, \<open>prettifyError\<close> has then been
  applied to every error and warning.
\<close>

theorem parseDocument_first_document:
  "composed_documents env source options = first # rest \<Longrightarrow>
   parseDocument env source options =
     (let pretty = (case parseOptions options of
                      (Some lc, True) \<Rightarrow> prettifyError env source (line_starts env source lc)
                    | _ \<Rightarrow> (\<lambda>e. e))
      in Inr (first\<lparr>errors := map pretty
                         (errors first @
                          (if logLevel first \<noteq> ''silent''
                           then map (\<lambda>d. multiple_docs_error (fst (doc_range d))) rest
                           else [])),
                     warnings := map pretty (warnings first)\<rparr>))"
  by (simp add: parseDocument_def on_document_None fold_on_document Let_def
      split: prod.splits option.splits bool.splits)

text \<open>
  The amended C6 on the two documents with the log level \<open>warn\<close>: one error, at the
  start of the second document.
\<close>

theorem parseDocument_first_document_witness:
  "composed_documents (ex_parse_env ''warn'') ex_two_docs_source None
     = [ex_parsed_doc ''warn'' ''a'' 0, ex_parsed_doc ''warn'' ''b'' 2] \<and>
   parseDocument (ex_parse_env ''warn'') ex_two_docs_source None
     = Inr ((ex_parsed_doc ''warn'' ''a'' 0)\<lparr>errors := [multiple_docs_error 2]\<rparr>)"
proof -
  have h: "composed_documents (ex_parse_env ''warn'') ex_two_docs_source None
     = ex_parsed_doc ''warn'' ''a'' 0 # [ex_parsed_doc ''warn'' ''b'' 2]"
    by (simp add: ex_parse_env_def)
  from parseDocument_first_document [OF h] h show ?thesis
    by (simp add: parseOptions_def ex_parse_env_def ex_parsed_doc_def)
qed

section \<open>Properties of stringifyCollection\<close>

lemma base_of_node_or_pair:
  "(if isNode item \<or> isPair item then base_of item else None) = base_of item"
  by (cases item) (simp_all add: isNode_def)

lemma reduce_item_flow:
  assumes r: "stringify env item c = Inr r" and ck: "\<not> chompKeep st"
  shows "\<exists>ns. reduce_item env c True ind n i item st =
           Inr \<lparr>nodes = nodes st @ ns, chompKeep = False,
                hasItemWithNewLine = (hasItemWithNewLine st \<or> item_needs_lines item r)\<rparr> \<and>
         map str ns = flow_item_strings env ind (\<not> int i < int n - 1) item r"
proof -
  obtain s oc ok where rr: "r = (s, oc, ok)" by (cases r) auto
  show ?thesis
  proof (cases "base_of item")
    case None
    then show ?thesis
      using r ck rr
      by (simp add: reduce_item_def base_of_node_or_pair item_needs_lines_def
          flow_item_strings_def Let_def)
  next
    case (Some b)
    then show ?thesis
      using r ck rr
      by (simp add: reduce_item_def base_of_node_or_pair item_needs_lines_def
          flow_item_strings_def Let_def comp_def split: option.splits)
  qed
qed


lemma reduce_items_flow:
  assumes "map (\<lambda>item. stringify env item c) items = map Inr rs"
    and "n = i + length items" and "\<not> chompKeep st"
  shows "\<exists>ns. reduce_items env c True ind n i items st =
           Inr \<lparr>nodes = nodes st @ ns, chompKeep = False,
                hasItemWithNewLine =
                  (hasItemWithNewLine st \<or>
                   (\<exists>(item, r) \<in> set (zip items rs). item_needs_lines item r))\<rparr> \<and>
         map str ns = flow_strings env ind items rs"
  using assms
proof (induction items arbitrary: rs i st)
  case Nil
  then show ?case by (cases st) simp
next
  case (Cons item items)
  from Cons.prems(1) obtain r rs' where rs: "rs = r # rs'"
    and r: "stringify env item c = Inr r"
    and rest: "map (\<lambda>item. stringify env item c) items = map Inr rs'"
    by (cases rs) auto
  from reduce_item_flow [OF r Cons.prems(3), of ind n i]
  obtain ns1 where step: "reduce_item env c True ind n i item st =
           Inr \<lparr>nodes = nodes st @ ns1, chompKeep = False,
                hasItemWithNewLine = (hasItemWithNewLine st \<or> item_needs_lines item r)\<rparr>"
    and str1: "map str ns1 = flow_item_strings env ind (\<not> int i < int n - 1) item r"
    by blast
  let ?st1 = "\<lparr>nodes = nodes st @ ns1, chompKeep = False,
                hasItemWithNewLine = (hasItemWithNewLine st \<or> item_needs_lines item r)\<rparr>"
  have n': "n = Suc i + length items" using Cons.prems(2) by simp
  have ck': "\<not> chompKeep ?st1" by simp
  from Cons.IH [OF rest n' ck', of]
  obtain ns2 where loop: "reduce_items env c True ind n (Suc i) items ?st1 =
           Inr \<lparr>nodes = nodes ?st1 @ ns2, chompKeep = False,
                hasItemWithNewLine =
                  (hasItemWithNewLine ?st1 \<or>
                   (\<exists>(item, r) \<in> set (zip items rs'). item_needs_lines item r))\<rparr>"
    and str2: "map str ns2 = flow_strings env ind items rs'"
    by blast
  have last: "(\<not> int i < int n - 1) = (items = [])"
    using Cons.prems(2) by auto
  show ?case
    apply (rule exI [of _ "ns1 @ ns2"])
    using step loop str1 str2 last rs by auto
qed

lemma flow_lines_starts:
  "\<exists>t. flow_lines start end ind step strings = start @ CHR 0x0A # t"
  by (cases strings) (simp_all add: flow_lines_def)

lemma flow_layouts_differ:
  "flow_single_line start end strings \<noteq> flow_lines start end ind step strings"
proof -
  obtain t where "flow_lines start end ind step strings = start @ CHR 0x0A # t"
    using flow_lines_starts by blast
  then show ?thesis by (simp add: flow_single_line_def)
qed

text \<open>
  C7, amended. For a collection with at least one item that is stringified in flow
  context (its own \<open>flow\<close> flag or the context's), when \<open>stringify\<close> renders every
  item, the text is the single-line form \<open>start item, ... item end\<close> exactly when no item
  needs lines (no blank line and no comment before an item, no comment on an item or on
  the key or value of a pair, no line feed in the text of an item) and the summed length
  does not exceed \<open>maxFlowStringSingleLineLength\<close>. Otherwise every string is put on a
  line of its own, a non-empty one after the indentation of the collection and one step
  more, and the closing bracket on a line of its own at the indentation of the
  collection. The comment of the collection follows either form. The two forms are
  never the same text.
\<close>

theorem stringifyCollection_flow_layout:
  assumes "flow \<or> inFlow ctx"
    and "items \<noteq> []"
    and "map (\<lambda>item. stringify env item
            (ctx\<lparr>indent := itemIndent opts @ indentStep ctx, inFlow := True, ctx_type := None\<rparr>))
           items = map Inr rs"
  shows "stringifyCollection env cmt flow items ctx opts =
           (let strings = flow_strings env (itemIndent opts @ indentStep ctx) items rs;
                start = flow_start (flowChars opts);
                end = flow_end (flowChars opts)
            in Inr ((if (\<exists>(item, r) \<in> set (zip items rs). item_needs_lines item r) \<or>
                        flow_length strings > maxFlowStringSingleLineLength env
                     then flow_lines start end (indent ctx) (indentStep ctx) strings
                     else flow_single_line start end strings) @
                    collection_comment cmt (indent ctx),
                    truthy_str cmt \<and> onComment opts, False)) \<and>
         flow_single_line (flow_start (flowChars opts)) (flow_end (flowChars opts))
             (flow_strings env (itemIndent opts @ indentStep ctx) items rs) \<noteq>
           flow_lines (flow_start (flowChars opts)) (flow_end (flowChars opts))
             (indent ctx) (indentStep ctx)
             (flow_strings env (itemIndent opts @ indentStep ctx) items rs)"
proof -
  let ?c = "ctx\<lparr>indent := itemIndent opts @ indentStep ctx, inFlow := True, ctx_type := None\<rparr>"
  let ?ind = "itemIndent opts @ indentStep ctx"
  let ?st0 = "\<lparr>nodes = [], chompKeep = False, hasItemWithNewLine = False\<rparr>"
  have n: "length items = 0 + length items" by simp
  have ck: "\<not> chompKeep ?st0" by simp
  from reduce_items_flow [OF assms(3) n ck, of ?ind]
  obtain ns where red: "reduce_items env ?c True ?ind (length items) 0 items ?st0 =
           Inr \<lparr>nodes = ns, chompKeep = False,
                hasItemWithNewLine =
                   (\<exists>(item, r) \<in> set (zip items rs). item_needs_lines item r)\<rparr>"
    and strs: "map str ns = flow_strings env ?ind items rs"
    by auto
  from assms(2,3) obtain item items' r rs' where "items = item # items'" "rs = r # rs'"
    by (cases items; cases rs) auto
  then have "flow_strings env ?ind items rs \<noteq> []"
    by (simp add: flow_item_strings_def)
  with strs have ne: "ns \<noteq> []" by auto
  have "stringifyCollection env cmt flow items ctx opts =
           (let strings = flow_strings env (itemIndent opts @ indentStep ctx) items rs;
                start = flow_start (flowChars opts);
                end = flow_end (flowChars opts)
            in Inr ((if (\<exists>(item, r) \<in> set (zip items rs). item_needs_lines item r) \<or>
                        flow_length strings > maxFlowStringSingleLineLength env
                     then flow_lines start end (indent ctx) (indentStep ctx) strings
                     else flow_single_line start end strings) @
                    collection_comment cmt (indent ctx),
                    truthy_str cmt \<and> onComment opts, False))"
    using assms(1) red strs ne
    by (cases cmt) (simp_all add: stringifyCollection_def Let_def collection_comment_def)
  then show ?thesis using flow_layouts_differ by blast
qed


text \<open>
  C7, counterexample. The spec has a flow collection on a single line whenever no item
  holds a line feed or a comment and the line is short enough. This is not so for a flow
  sequence whose one item has a blank
  line before it: the item has no comment, its text \<open>a\<close> has no line feed, and the
  summed length 5 is below the bound, yet the text is not the single line \<open>[ a ]\<close>: it
  has a blank line, the item on a line of its own and the closing bracket on another.
\<close>

theorem stringifyCollection_flow_layout_counterexample:
  "comment (NodeBase_new 1\<lparr>spaceBefore := True\<rparr>) = None \<and>
   commentBefore (NodeBase_new 1\<lparr>spaceBefore := True\<rparr>) = None \<and>
   stringify ex_stringify_env ex_spaced_item
     ((ex_stringify_ctx False)\<lparr>indent := ''    '', inFlow := True, ctx_type := None\<rparr>)
     = Inr (''a'', False, False) \<and>
   CHR 0x0A \<notin> set ''a'' \<and>
   flow_length [''a''] \<le> maxFlowStringSingleLineLength ex_stringify_env \<and>
   YAMLSeq_toString ex_stringify_env (\<lambda>x. []) (NodeBase_new 0) True [ex_spaced_item]
       (Some (ex_stringify_ctx False)) False False
     = Inr (''['' @ [CHR 0x0A, CHR 0x0A] @ ''  a'' @ [CHR 0x0A] @ '']'', False, False) \<and>
   ''['' @ [CHR 0x0A, CHR 0x0A] @ ''  a'' @ [CHR 0x0A] @ '']'' \<noteq> flow_single_line ''['' '']'' [''a'']"
  by (simp add: YAMLSeq_toString_def stringifyCollection_def reduce_item_def Let_def
      ex_stringify_env_def ex_stringify_ctx_def ex_spaced_item_def NodeBase_new_def isNode_def
      item_breaks_line_def flow_lines_def flow_single_line_def flow_length_def)

text \<open>
  The amended C7 on a flow sequence of two plain items: the single line \<open>[ a, a ]\<close>.
\<close>

theorem stringifyCollection_flow_layout_witness:
  "stringifyCollection ex_stringify_env None True [JStr ''x'', JStr ''y''] (ex_stringify_ctx False)
     \<lparr>blockItem = str, flowChars = Brackets, itemIndent = ''  '', onChompKeep = False,
      onComment = False\<rparr>
   = Inr (''[ a, a ]'', False, False)"
proof -
  let ?opts = "\<lparr>blockItem = str, flowChars = Brackets, itemIndent = ''  '', onChompKeep = False,
      onComment = False\<rparr>"
  have h1: "True \<or> inFlow (ex_stringify_ctx False)" by simp
  have h2: "[JStr ''x'', JStr ''y''] \<noteq> []" by simp
  have h3: "map (\<lambda>item. stringify ex_stringify_env item
            ((ex_stringify_ctx False)\<lparr>indent := itemIndent ?opts @ indentStep (ex_stringify_ctx False),
               inFlow := True, ctx_type := None\<rparr>))
           [JStr ''x'', JStr ''y''] = map Inr [(''a'', False, False), (''a'', False, False)]"
    by (simp add: ex_stringify_env_def)
  from stringifyCollection_flow_layout [OF h1 h2 h3, of None] show ?thesis
    by (simp add: Let_def flow_item_strings_def item_needs_lines_def flow_length_def
        flow_single_line_def collection_comment_def ex_stringify_env_def ex_stringify_ctx_def)
qed

text \<open>
  C10. For a collection with no items the text is the two flow brackets with nothing in
  between, \<open>{}\<close> or \<open>[]\<close>, whatever the \<open>flow\<close> flag of the collection and of the
  context; the comment of the collection, when it has one, follows on lines of its own.
\<close>

theorem stringifyCollection_empty:
  "stringifyCollection env cmt flow [] ctx opts =
     Inr (flow_start (flowChars opts) @ flow_end (flowChars opts) @
          collection_comment cmt (indent ctx),
          truthy_str cmt \<and> onComment opts, False) \<and>
   (flow_start (flowChars opts) @ flow_end (flowChars opts) = ''{}'' \<or>
    flow_start (flowChars opts) @ flow_end (flowChars opts) = ''[]'')"
proof
  show "stringifyCollection env cmt flow [] ctx opts =
     Inr (flow_start (flowChars opts) @ flow_end (flowChars opts) @
          collection_comment cmt (indent ctx),
          truthy_str cmt \<and> onComment opts, False)"
    by (cases cmt) (simp_all add: stringifyCollection_def Let_def collection_comment_def)
  show "flow_start (flowChars opts) @ flow_end (flowChars opts) = ''{}'' \<or>
    flow_start (flowChars opts) @ flow_end (flowChars opts) = ''[]''"
    by (cases "flowChars opts") simp_all
qed

text \<open>
  C10 on an empty sequence that is not marked as flow, in block context: \<open>[]\<close>.
\<close>

theorem stringifyCollection_empty_witness:
  "YAMLSeq_toString ex_stringify_env (\<lambda>x. []) (NodeBase_new 0) False []
       (Some (ex_stringify_ctx False)) False False
     = Inr (''[]'', False, False)"
  using stringifyCollection_empty [of ex_stringify_env None False "ex_stringify_ctx False"
      "\<lparr>blockItem = (\<lambda>n. if node_comment n then str n else ''- '' @ str n),
        flowChars = Brackets, itemIndent = indent (ex_stringify_ctx False) @ ''  '',
        onChompKeep = False, onComment = False\<rparr>"]
  by (simp add: YAMLSeq_toString_def collection_comment_def NodeBase_new_def)

section \<open>Properties of resolveFlowCollection\<close>

lemma onError_simps [simp]:
  "s_errors (onError off c m st) = s_errors st @ [\<lparr>offset = off, code = c, message = m\<rparr>]"
  "s_offset (onError off c m st) = s_offset st"
  "s_items (onError off c m st) = s_items st"
  "s_key (onError off c m st) = s_key st"
  "s_value (onError off c m st) = s_value st"
  "s_atExplicitKey (onError off c m st) = s_atExplicitKey st"
  "s_comment (onError off c m st) = s_comment st"
  "s_next_id (onError off c m st) = s_next_id st"
  by (simp_all add: onError_def)

lemma add_source_length_simps [simp]:
  "s_errors (add_source_length tok st) = s_errors st"
  "s_items (add_source_length tok st) = s_items st"
  "s_key (add_source_length tok st) = s_key st"
  "s_value (add_source_length tok st) = s_value st"
  "s_atExplicitKey (add_source_length tok st) = s_atExplicitKey st"
  by (simp_all add: add_source_length_def)








lemma isNode_set_comment [simp]: "isNode (set_comment c x) = isNode x"
  by (cases x) (simp_all add: isNode_def)

lemma set_trailing_comment_nodes:
  assumes "set_trailing_comment c xs = Some ys" and "list_all isNode xs"
  shows "list_all isNode ys"
proof -
  from assms(1) have ne: "xs \<noteq> []"
    by (auto simp: set_trailing_comment_def split: if_splits)
  then have "list_all isNode (butlast xs @ [last xs])"
    using assms(2) by simp
  then have b: "list_all isNode (butlast xs)" and l: "isNode (last xs)"
    by simp_all
  from l have np: "\<not> isPair (last xs)" by (cases "last xs") (simp_all add: isNode_def)
  with assms(1) ne l have "ys = butlast xs @ [set_comment c (last xs)]"
    by (cases "last xs") (simp_all add: set_trailing_comment_def isNode_def)
  with b l show ?thesis by simp
qed


lemma isNode_new_flow_map [simp]: "isNode (new_flow_map i k v)"
  by (simp add: new_flow_map_def isNode_def)

lemma addItem_seq_ok:
  assumes "\<forall>off items pos props. isNode (fst (composeEmptyNode env off items pos props))"
    and "seq_state_ok st"
  shows "\<not> s_atExplicitKey (addItem env False items pos st) \<and>
         list_all isNode (s_items (addItem env False items pos st))"
proof (cases "s_value st")
  case None
  obtain v errs where ce: "composeEmptyNode env (s_offset st) items pos (fst (getProps st)) = (v, errs)"
    by (cases "composeEmptyNode env (s_offset st) items pos (fst (getProps st))") auto
  with assms(1) have "isNode v" by (metis fst_conv)
  with None ce assms(2) show ?thesis
    by (cases "s_key st") (simp_all add: addItem_def seq_state_ok_def getProps_def Let_def)
next
  case (Some v)
  with assms(2) show ?thesis
    by (cases "s_key st") (simp_all add: addItem_def seq_state_ok_def Let_def)
qed

lemma map_value_ind_seq_ok:
  assumes "seq_state_ok st"
  shows "seq_state_ok (map_value_ind env items i st)"
proof -
  have v: "s_value (map_value_ind env items i st) = None"
    by (simp add: map_value_ind_def Let_def getProps_def onError_def
        split: option.splits prod.splits)
  have i: "s_items (map_value_ind env items i st) = s_items st"
    by (simp add: map_value_ind_def Let_def getProps_def onError_def
        split: option.splits prod.splits)
  have e: "\<not> s_atExplicitKey (map_value_ind env items i st)"
    by (simp add: map_value_ind_def Let_def)
  from v i e assms show ?thesis by (simp add: seq_state_ok_def)
qed

lemma compose_value_seq_ok:
  assumes "\<forall>tok props. isNode (fst (composeNode env tok props))"
    and "seq_state_ok st"
  shows "seq_state_ok (compose_value env False tok st)"
proof -
  have "case s_value (compose_value env False tok st) of
      None \<Rightarrow> True | Some v \<Rightarrow> isNode v"
    using assms(1) by (simp add: compose_value_def Let_def case_prod_beta)
  moreover have "s_items (compose_value env False tok st) = s_items st"
    by (simp add: compose_value_def Let_def getProps_def onError_def case_prod_beta)
  moreover have "s_atExplicitKey (compose_value env False tok st) = s_atExplicitKey st"
    by (simp add: compose_value_def Let_def getProps_def onError_def case_prod_beta)
  ultimately show ?thesis using assms(2) by (simp add: seq_state_ok_def)
qed

lemma onError_seq_ok [simp]: "seq_state_ok (onError off c m st) = seq_state_ok st"
  by (simp add: seq_state_ok_def onError_def)

lemma add_source_length_seq_ok [simp]:
  "seq_state_ok (add_source_length tok st) = seq_state_ok st"
  by (simp add: seq_state_ok_def add_source_length_def)

lemma fold_onError_fields [simp]:
  "s_items (fold (onError off c) msgs st) = s_items st"
  "s_value (fold (onError off c) msgs st) = s_value st"
  "s_atExplicitKey (fold (onError off c) msgs st) = s_atExplicitKey st"
  by (induction msgs arbitrary: st) (simp_all add: onError_def)


lemma flow_step_seq_ok:
  assumes "tok_type tok \<noteq> T_explicit_key_ind"
    and "\<forall>tok props. isNode (fst (composeNode env tok props))"
    and "\<forall>off items pos props. isNode (fst (composeEmptyNode env off items pos props))"
    and "seq_state_ok st"
  shows "seq_state_ok (flow_step env False items i tok st)"
proof (cases "tok_type tok")
  case T_space
  with assms(4) show ?thesis by (simp add: flow_step_def seq_state_ok_def add_source_length_def)
next
  case T_comment
  with assms(4) show ?thesis
    by (simp add: flow_step_def seq_state_ok_def add_source_length_def onError_def Let_def)
next
  case T_newline
  have "list_all isNode ys" if "set_trailing_comment c (s_items st) = Some ys" for c ys
    using that assms(4) set_trailing_comment_nodes by (simp add: seq_state_ok_def)
  with T_newline assms(4) show ?thesis
    by (simp add: flow_step_def seq_state_ok_def add_source_length_def onError_def Let_def
        split: option.splits)
next
  case T_anchor
  with assms(4) show ?thesis
    by (simp add: flow_step_def seq_state_ok_def add_source_length_def onError_def Let_def)
next
  case T_tag
  with assms(4) show ?thesis
    by (simp add: flow_step_def Let_def case_prod_beta seq_state_ok_def add_source_length_def
        onError_def split: option.splits)
next
  case T_explicit_key_ind
  with assms(1) show ?thesis by simp
next
  case T_map_value_ind
  with assms(4) show ?thesis by (simp add: flow_step_def map_value_ind_seq_ok)
next
  case T_comma
  from addItem_seq_ok [OF assms(3,4), of items i]
  have "list_all isNode (s_items (addItem env False items i st))" by simp
  with T_comma assms(4) show ?thesis
    by (simp add: flow_step_def seq_state_ok_def add_source_length_def onError_def Let_def)
next
  case T_block_map
  with assms(2,4) show ?thesis by (simp add: flow_step_def compose_value_seq_ok)
next
  case T_block_seq
  with assms(2,4) show ?thesis by (simp add: flow_step_def compose_value_seq_ok)
next
  case (T_other name)
  with assms(2,4) show ?thesis by (simp add: flow_step_def compose_value_seq_ok)
qed

lemma flow_loop_seq_ok:
  assumes "\<forall>tok \<in> set toks. tok_type tok \<noteq> T_explicit_key_ind"
    and "\<forall>tok props. isNode (fst (composeNode env tok props))"
    and "\<forall>off items pos props. isNode (fst (composeEmptyNode env off items pos props))"
    and "seq_state_ok st"
  shows "seq_state_ok (flow_loop env False items i toks st)"
  using assms(1,4)
proof (induction toks arbitrary: i st)
  case Nil
  then show ?case by simp
next
  case (Cons tok toks)
  from Cons.prems have "seq_state_ok (flow_step env False items i tok st)"
    using flow_step_seq_ok [OF _ assms(2,3)] by simp
  with Cons show ?case by simp
qed


lemma resolveFlowCollection_seq_items:
  assumes "fc_start_source fc \<noteq> ''{''"
  shows "\<exists>b. fst (resolveFlowCollection env fc n) =
           YAMLSeq b True (s_items (flow_items_state env fc n))"
  using assms
  by (simp add: resolveFlowCollection_def Let_def case_prod_beta add_source_length_def
      onError_def split: list.splits)

lemma flow_items_state_seq_ok:
  assumes "fc_start_source fc \<noteq> ''{''"
    and "\<forall>tok \<in> set (fc_items fc). tok_type tok \<noteq> T_explicit_key_ind"
    and "\<forall>tok props. isNode (fst (composeNode env tok props))"
    and "\<forall>off items pos props. isNode (fst (composeEmptyNode env off items pos props))"
  shows "list_all isNode (s_items (flow_items_state env fc n))"
proof -
  let ?st = "flow_loop env False (fc_items fc) 0 (fc_items fc) (initial_state fc (n + 1))"
  have "seq_state_ok (initial_state fc (n + 1))"
    by (simp add: seq_state_ok_def initial_state_def)
  with flow_loop_seq_ok [OF assms(2,3,4)] have ok: "seq_state_ok ?st" by blast
  then have a: "list_all isNode (s_items ?st)" by (simp add: seq_state_ok_def)
  from addItem_seq_ok [OF assms(4) ok]
  have b: "list_all isNode (s_items (addItem env False (fc_items fc) (length (fc_items fc)) ?st))"
    by simp
  from a b assms(1) show ?thesis
    by (simp add: flow_items_state_def Let_def)
qed

lemma isNode_not_isPair: "isNode x \<Longrightarrow> \<not> isPair x"
  by (cases x) (simp_all add: isNode_def)

text \<open>
  C9. In a flow sequence (the collection does not start with \<open>{\<close>) with no \<open>?\<close>
  indicator among its tokens, when \<open>composeNode\<close> and \<open>composeEmptyNode\<close> return nodes,
  the composed collection is a flow sequence every item of which is a node and none a
  pair. And whenever \<open>addItem\<close> runs in a sequence, not after a \<open>?\<close> indicator, with a
  key, it adds exactly one item: a new flow map whose one item is the pair of the key
  and the value.
\<close>

theorem flow_seq_items_are_nodes:
  assumes "fc_start_source fc \<noteq> ''{''"
    and "\<forall>tok \<in> set (fc_items fc). tok_type tok \<noteq> T_explicit_key_ind"
    and "\<forall>tok props. isNode (fst (composeNode env tok props))"
    and "\<forall>off items pos props. isNode (fst (composeEmptyNode env off items pos props))"
  shows "(\<exists>b items. fst (resolveFlowCollection env fc n) = YAMLSeq b True items \<and>
            list_all (\<lambda>item. isNode item \<and> \<not> isPair item) items) \<and>
         (\<forall>st pos k. \<not> s_atExplicitKey st \<longrightarrow> s_key st = Some k \<longrightarrow>
            (\<exists>v. s_items (addItem env False (fc_items fc) pos st) =
                   s_items st @
                   [YAMLMap (NodeBase_new (s_next_id st)) True
                      [Pair (NodeBase_new (s_next_id st + 1)) k v]]))"
proof (intro conjI allI impI)
  from resolveFlowCollection_seq_items [OF assms(1)]
  obtain b where b: "fst (resolveFlowCollection env fc n) =
      YAMLSeq b True (s_items (flow_items_state env fc n))"
    by blast
  from flow_items_state_seq_ok [OF assms]
  have "list_all isNode (s_items (flow_items_state env fc n))" .
  then have "list_all (\<lambda>item. isNode item \<and> \<not> isPair item) (s_items (flow_items_state env fc n))"
    by (simp add: list_all_iff isNode_not_isPair)
  with b show "\<exists>b items. fst (resolveFlowCollection env fc n) = YAMLSeq b True items \<and>
            list_all (\<lambda>item. isNode item \<and> \<not> isPair item) items"
    by blast
next
  fix st :: FlowState and pos k
  assume "\<not> s_atExplicitKey st" and "s_key st = Some k"
  then show "\<exists>v. s_items (addItem env False (fc_items fc) pos st) =
                   s_items st @
                   [YAMLMap (NodeBase_new (s_next_id st)) True
                      [Pair (NodeBase_new (s_next_id st + 1)) k v]]"
    by (cases "s_value st")
      (simp_all add: addItem_def Let_def getProps_def case_prod_beta new_flow_map_def)
qed

text \<open>
  C9 on the flow sequence \<open>[k...k: v]\<close>: its one item is a flow map holding the pair.
\<close>

theorem flow_seq_items_are_nodes_witness:
  "fst (resolveFlowCollection (ex_compose_env True) ex_long_key_fc 0) =
     YAMLSeq ((NodeBase_new 0)\<lparr>range := Some (0, 1035)\<rparr>) True
       [YAMLMap (NodeBase_new 1) True
          [Pair (NodeBase_new 2)
             (Scalar ((NodeBase_new 101)\<lparr>range := Some (1, 1031)\<rparr>)
                (JStr (replicate 1030 (CHR ''k''))))
             (Scalar ((NodeBase_new 1133)\<lparr>range := Some (1033, 1034)\<rparr>) (JStr ''v''))]] \<and>
   list_all (\<lambda>item. isNode item \<and> \<not> isPair item)
     (items_of (fst (resolveFlowCollection (ex_compose_env True) ex_long_key_fc 0)))"
proof -
  have h1: "fc_start_source ex_long_key_fc \<noteq> ''{''" by (simp add: ex_long_key_fc_def)
  have h2: "\<forall>tok \<in> set (fc_items ex_long_key_fc). tok_type tok \<noteq> T_explicit_key_ind"
    by (simp add: ex_long_key_fc_def ex_long_key_def)
  have h3: "\<forall>tok props. isNode (fst (composeNode (ex_compose_env True) tok props))"
    by (simp add: ex_compose_env_def isNode_def)
  have h4: "\<forall>off items pos props.
      isNode (fst (composeEmptyNode (ex_compose_env True) off items pos props))"
    by (simp add: ex_compose_env_def isNode_def)
  have v: "fst (resolveFlowCollection (ex_compose_env True) ex_long_key_fc 0) =
     YAMLSeq ((NodeBase_new 0)\<lparr>range := Some (0, 1035)\<rparr>) True
       [YAMLMap (NodeBase_new 1) True
          [Pair (NodeBase_new 2)
             (Scalar ((NodeBase_new 101)\<lparr>range := Some (1, 1031)\<rparr>)
                (JStr (replicate 1030 (CHR ''k''))))
             (Scalar ((NodeBase_new 1133)\<lparr>range := Some (1033, 1034)\<rparr>) (JStr ''v''))]]"
    by (simp add: resolveFlowCollection_def flow_items_state_def flow_step_def compose_value_def
      map_value_ind_def addItem_def getProps_def initial_state_def ex_long_key_def
      ex_compose_env_def range_of_def Let_def ex_long_key_fc_def add_source_length_def
      onError_def new_flow_map_def NodeBase_new_def)
  from flow_seq_items_are_nodes [OF h1 h2 h3 h4, of 0]
  obtain b items where "fst (resolveFlowCollection (ex_compose_env True) ex_long_key_fc 0) =
      YAMLSeq b True items" and "list_all (\<lambda>item. isNode item \<and> \<not> isPair item) items"
    by blast
  then have "list_all (\<lambda>item. isNode item \<and> \<not> isPair item)
     (items_of (fst (resolveFlowCollection (ex_compose_env True) ex_long_key_fc 0)))"
    by simp
  with v show ?thesis by blast
qed


text \<open>
  After a \<open>?\<close> indicator that no \<open>:\<close> follows, the case the statement above leaves out,
  \<open>addItem\<close> adds the pair itself: the one item of \<open>[? a]\<close> is a pair.
\<close>

lemma flow_seq_explicit_key_adds_pair:
  "list_all isPair (items_of (fst (resolveFlowCollection (ex_compose_env True) ex_explicit_key_fc 0)))"
  by (simp add: resolveFlowCollection_def flow_items_state_def flow_step_def compose_value_def
      addItem_def getProps_def initial_state_def ex_explicit_key_fc_def
      ex_compose_env_def range_of_def Let_def add_source_length_def onError_def)

end
